theory Spec2Isabelle
  imports Complex_Main
begin

section \<open>Length bookkeeping of the discriminators (encoders/encoders.py)\<close>

text \<open>
  A length vector is an integer tensor with one entry per batch element, of torch's
  default integer type: 64-bit, signed, wrapping on overflow. The two operations
  \<open>features_lengths\<close> applies to it are the broadcast addition of a Python integer
  (\<open>lengths + 3\<close>, \<open>lengths - 6\<close>) and \<open>torch.div(_, n, rounding_mode="floor")\<close>;
  both act entry by entry. An entry is modelled by its value, an \<open>int\<close> between
  \<open>-2^63\<close> and \<open>2^63 - 1\<close>; the addition wraps into that range. On \<open>int\<close>,
  \<open>div\<close> rounds towards minus infinity, as the floor rounding mode does, and the
  quotient by a positive divisor stays in the range.
\<close>

type_synonym lengths = "int list"

definition wrap64 :: "int \<Rightarrow> int" where
  "wrap64 v = (v + 2 ^ 63) mod 2 ^ 64 - 2 ^ 63"

definition tensor_add_scalar :: "lengths \<Rightarrow> int \<Rightarrow> lengths" where
  "tensor_add_scalar ls n = map (\<lambda>l. wrap64 (l + n)) ls"

definition torch_div_floor :: "lengths \<Rightarrow> int \<Rightarrow> lengths" where
  "torch_div_floor ls n = map (\<lambda>l. l div n) ls"

subsection \<open>WaveDiscriminatorBlock.features_lengths\<close>

definition WaveDiscriminatorBlock_features_lengths :: "lengths \<Rightarrow> lengths list" where
  "WaveDiscriminatorBlock_features_lengths ls =
     [ ls,
       torch_div_floor (tensor_add_scalar ls 3) 4,
       torch_div_floor (tensor_add_scalar ls 15) 16,
       torch_div_floor (tensor_add_scalar ls 63) 64,
       torch_div_floor (tensor_add_scalar ls 255) 256,
       torch_div_floor (tensor_add_scalar ls 255) 256,
       torch_div_floor (tensor_add_scalar ls 255) 256 ]"

subsection \<open>WaveDiscriminator.features_lengths\<close>

text \<open>
  The discriminator bank keeps \<open>num_D\<close> and \<open>downsampling_factor\<close>. Its
  \<open>features_lengths\<close> is a dict comprehension over \<open>i in range(num_D)\<close> whose key is
  the string \<open>disc_{downsampling_factor**i}\<close> and whose value is the block's sequence on
  \<open>torch.div(lengths, 2**i, rounding_mode="floor")\<close>. The key is modelled by the
  integer it prints (the formatting is injective); a later \<open>i\<close> with the same key
  overwrites an earlier one, as in the Python dict.
\<close>

record WaveDiscriminator =
  num_D :: nat
  downsampling_factor :: int

fun features_lengths_range :: "int \<Rightarrow> lengths \<Rightarrow> nat \<Rightarrow> (int \<rightharpoonup> lengths list)" where
  "features_lengths_range f ls 0 = Map.empty"
| "features_lengths_range f ls (Suc i) =
     (features_lengths_range f ls i)
       (f ^ i \<mapsto> WaveDiscriminatorBlock_features_lengths (torch_div_floor ls (2 ^ i)))"

definition WaveDiscriminator_features_lengths ::
  "WaveDiscriminator \<Rightarrow> lengths \<Rightarrow> (int \<rightharpoonup> lengths list)" where
  "WaveDiscriminator_features_lengths D ls =
     features_lengths_range (downsampling_factor D) ls (num_D D)"

subsection \<open>STFTDiscriminator.features_lengths\<close>

definition STFTDiscriminator_features_lengths :: "lengths \<Rightarrow> lengths list" where
  "STFTDiscriminator_features_lengths ls =
     [ tensor_add_scalar ls (- 6),
       tensor_add_scalar ls (- 6),
       torch_div_floor (tensor_add_scalar ls (- 5)) 2,
       torch_div_floor (tensor_add_scalar ls (- 5)) 2,
       torch_div_floor (tensor_add_scalar ls (- 3)) 4,
       torch_div_floor (tensor_add_scalar ls (- 3)) 4,
       torch_div_floor (tensor_add_scalar ls 1) 8,
       torch_div_floor (tensor_add_scalar ls 1) 8 ]"

section \<open>Tensors and the torch primitives the codec is built from\<close>

text \<open>
  A tensor of shape (batch, channels, time) is its three sizes and the value at each
  index. Every layer of the file reads its input only inside the shape. Values are
  real numbers: the properties below concern shapes, failures and which input samples
  an output sample depends on, none of which depends on rounding.
\<close>

record tensor =
  nbatch :: nat
  nchan :: nat
  ntime :: nat
  val :: "nat \<Rightarrow> nat \<Rightarrow> nat \<Rightarrow> real"

type_synonym shape = "nat \<times> nat \<times> nat"

definition shape_of :: "tensor \<Rightarrow> shape" where
  "shape_of x = (nbatch x, nchan x, ntime x)"

text \<open>
  The exceptions of the forward passes: the \<open>ValueError\<close> of the Python code and the
  \<open>RuntimeError\<close>s of torch's shape checks, one constructor per check.
\<close>

datatype torch_error =
    ValueError
  | IndexError
  | NonPositiveStride
  | EmptyWeight
  | ChannelMismatch
  | DegenerateKernel
  | KernelTooLarge
  | EmptyInput
  | OutputPaddingTooLarge
  | OutputTooSmall
  | PaddingTooLarge
  | BroadcastError

text \<open>\<open>F.pad(x, [l, r])\<close>: constant (zero) padding of the time axis.\<close>

definition F_pad :: "tensor \<Rightarrow> nat \<Rightarrow> nat \<Rightarrow> tensor" where
  "F_pad x l r =
     \<lparr> nbatch = nbatch x, nchan = nchan x, ntime = l + ntime x + r,
       val = (\<lambda>b c j. if l \<le> j \<and> j < l + ntime x then val x b c (j - l) else 0) \<rparr>"

text \<open>
  The shape check of \<open>F.conv1d\<close> and the length of its output,
  \<open>floor((L + 2 p - d (k - 1) - 1) / s) + 1\<close>. torch checks, in this order, that the
  stride is positive, that the weight has at least one output channel (at least
  \<open>groups\<close> of them), that the input has the weight's input channel count, and that
  the padded input is at least as long as the dilated kernel. An empty kernel or a
  dilation of 0 is rejected as well. An input without elements is accepted only when
  its batch or its channel axis is empty.
\<close>

definition conv1d_shape ::
  "nat \<Rightarrow> nat \<Rightarrow> nat \<Rightarrow> nat \<Rightarrow> nat \<Rightarrow> nat \<Rightarrow> shape \<Rightarrow> torch_error + shape" where
  "conv1d_shape cin cout k s p d sh =
     (case sh of (B, C, L) \<Rightarrow>
        if s = 0 then Inl NonPositiveStride
        else if cout = 0 then Inl EmptyWeight
        else if C \<noteq> cin then Inl ChannelMismatch
        else if k = 0 \<or> d = 0 then Inl DegenerateKernel
        else if L + 2 * p < d * (k - 1) + 1 then Inl KernelTooLarge
        else if L = 0 \<and> 0 < B \<and> 0 < C then Inl EmptyInput
        else Inr (B, cout, (L + 2 * p - d * (k - 1) - 1) div s + 1))"

text \<open>
  \<open>nn.Conv1d\<close> with the attributes the repository sets; \<open>groups\<close> and
  \<open>padding_mode\<close> stay at their defaults (1 and zeros) at every construction of a
  \<open>CausalConv1d\<close> and of the pointwise convolution. \<open>weight m co ci i\<close> is the
  weight tensor of shape (out_channels, in_channels, kernel_size).
\<close>

record Conv1d =
  in_channels :: nat
  out_channels :: nat
  kernel_size :: nat
  stride :: nat
  padding :: nat
  dilation :: nat
  weight :: "nat \<Rightarrow> nat \<Rightarrow> nat \<Rightarrow> real"
  bias :: "nat \<Rightarrow> real"

definition Conv1d_forward :: "Conv1d \<Rightarrow> tensor \<Rightarrow> torch_error + tensor" where
  "Conv1d_forward m x =
     (case conv1d_shape (in_channels m) (out_channels m) (kernel_size m) (stride m)
             (padding m) (dilation m) (shape_of x) of
        Inl e \<Rightarrow> Inl e
      | Inr (B, C, L) \<Rightarrow>
          Inr \<lparr> nbatch = B, nchan = C, ntime = L,
                val = (\<lambda>b co u. bias m co +
                  (\<Sum>ci<in_channels m. \<Sum>i<kernel_size m.
                     weight m co ci i *
                     val (F_pad x (padding m) (padding m)) b ci (u * stride m + i * dilation m))) \<rparr>)"

subsection \<open>CausalConv1d\<close>

definition causal_padding :: "Conv1d \<Rightarrow> nat" where
  "causal_padding m = dilation m * (kernel_size m - 1)"

definition CausalConv1d_forward :: "Conv1d \<Rightarrow> tensor \<Rightarrow> torch_error + tensor" where
  "CausalConv1d_forward m x = Conv1d_forward m (F_pad x (causal_padding m) 0)"


subsection \<open>nn.Sequential, nn.ELU and the residual addition\<close>

fun Sequential :: "('a \<Rightarrow> torch_error + 'a) list \<Rightarrow> 'a \<Rightarrow> torch_error + 'a" where
  "Sequential [] x = Inr x"
| "Sequential (l # ls) x = (case l x of Inl e \<Rightarrow> Inl e | Inr y \<Rightarrow> Sequential ls y)"

definition elu :: "real \<Rightarrow> real" where
  "elu v = (if v > 0 then v else exp v - 1)"

definition ELU :: "tensor \<Rightarrow> torch_error + tensor" where
  "ELU x = Inr (x \<lparr> val := (\<lambda>b c t. elu (val x b c t)) \<rparr>)"

text \<open>
  \<open>x + y\<close> on tensors broadcasts: two sizes of an axis are compatible when they are
  equal or one of them is 1, and the axis of size 1 is read at index 0.
\<close>

definition broadcast_dim :: "nat \<Rightarrow> nat \<Rightarrow> nat option" where
  "broadcast_dim a b = (if a = b then Some a else if a = 1 then Some b
                        else if b = 1 then Some a else None)"

definition broadcast_index :: "nat \<Rightarrow> nat \<Rightarrow> nat" where
  "broadcast_index n i = (if n = 1 then 0 else i)"

definition tensor_add :: "tensor \<Rightarrow> tensor \<Rightarrow> torch_error + tensor" where
  "tensor_add x y =
     (case (broadcast_dim (nbatch x) (nbatch y), broadcast_dim (nchan x) (nchan y),
            broadcast_dim (ntime x) (ntime y)) of
        (Some B, Some C, Some L) \<Rightarrow>
          Inr \<lparr> nbatch = B, nchan = C, ntime = L,
                val = (\<lambda>b c t.
                  val x (broadcast_index (nbatch x) b) (broadcast_index (nchan x) c)
                        (broadcast_index (ntime x) t) +
                  val y (broadcast_index (nbatch y) b) (broadcast_index (nchan y) c)
                        (broadcast_index (ntime y) t)) \<rparr>
      | _ \<Rightarrow> Inl BroadcastError)"

subsection \<open>ResidualUnit\<close>

text \<open>
  The constructors take the freshly initialised parameters (weight and bias of each
  convolution) as arguments; every property below holds for all of them.
\<close>

type_synonym conv_params = "(nat \<Rightarrow> nat \<Rightarrow> nat \<Rightarrow> real) \<times> (nat \<Rightarrow> real)"

definition Conv1d_init :: "nat \<Rightarrow> nat \<Rightarrow> nat \<Rightarrow> nat \<Rightarrow> nat \<Rightarrow> conv_params \<Rightarrow> Conv1d" where
  "Conv1d_init cin cout k s d p =
     \<lparr> in_channels = cin, out_channels = cout, kernel_size = k, stride = s, padding = 0,
       dilation = d, weight = fst p, bias = snd p \<rparr>"

record ResidualUnit =
  ru_dilation :: nat
  ru_causal :: Conv1d
  ru_pointwise :: Conv1d

definition ResidualUnit_init ::
  "nat \<Rightarrow> nat \<Rightarrow> nat \<Rightarrow> conv_params \<times> conv_params \<Rightarrow> ResidualUnit" where
  "ResidualUnit_init cin cout d p =
     \<lparr> ru_dilation = d,
       ru_causal = Conv1d_init cin cout 7 1 d (fst p),
       ru_pointwise = Conv1d_init cin cout 1 1 1 (snd p) \<rparr>"

definition ResidualUnit_layers :: "ResidualUnit \<Rightarrow> tensor \<Rightarrow> torch_error + tensor" where
  "ResidualUnit_layers ru =
     Sequential [CausalConv1d_forward (ru_causal ru), ELU, Conv1d_forward (ru_pointwise ru)]"

definition ResidualUnit_forward :: "ResidualUnit \<Rightarrow> tensor \<Rightarrow> torch_error + tensor" where
  "ResidualUnit_forward ru x =
     (case ResidualUnit_layers ru x of Inl e \<Rightarrow> Inl e | Inr y \<Rightarrow> tensor_add x y)"

subsection \<open>EncoderBlock\<close>

record EncoderBlock =
  eb_unit1 :: ResidualUnit
  eb_unit2 :: ResidualUnit
  eb_unit3 :: ResidualUnit
  eb_down :: Conv1d

type_synonym unit_params = "conv_params \<times> conv_params"
type_synonym block_params = "unit_params \<times> unit_params \<times> unit_params \<times> conv_params"

definition EncoderBlock_init :: "nat \<Rightarrow> nat \<Rightarrow> nat \<Rightarrow> block_params \<Rightarrow> EncoderBlock" where
  "EncoderBlock_init cin cout s p =
     (case p of (p1, p2, p3, p4) \<Rightarrow>
       \<lparr> eb_unit1 = ResidualUnit_init cin cin 1 p1,
         eb_unit2 = ResidualUnit_init cin cin 3 p2,
         eb_unit3 = ResidualUnit_init cin cin 9 p3,
         eb_down = Conv1d_init cin cout (2 * s) s 1 p4 \<rparr>)"

definition EncoderBlock_forward :: "EncoderBlock \<Rightarrow> tensor \<Rightarrow> torch_error + tensor" where
  "EncoderBlock_forward eb =
     Sequential [ResidualUnit_forward (eb_unit1 eb), ELU,
                 ResidualUnit_forward (eb_unit2 eb), ELU,
                 ResidualUnit_forward (eb_unit3 eb), ELU,
                 CausalConv1d_forward (eb_down eb)]"

subsection \<open>SoundStreamXLEncoder\<close>

record SoundStreamXLEncoder =
  enc_first :: Conv1d
  enc_blocks :: "EncoderBlock list"
  enc_last :: Conv1d

definition default_strides :: "nat list" where
  "default_strides = [2, 2, 4, 5, 8]"

definition default_c_mults :: "nat list" where
  "default_c_mults = [2, 4, 4, 8, 16]"

text \<open>
  The loop \<open>for i in range(self.depth-1)\<close> builds block \<open>i\<close> from \<open>c_mults[i]\<close>,
  \<open>c_mults[i+1]\<close> (of the list with the leading 1) and \<open>strides[i]\<close>; a stride list
  shorter than \<open>c_mults\<close> raises \<open>IndexError\<close>, a longer one is read only so far.
\<close>

fun encoder_blocks ::
  "nat \<Rightarrow> nat list \<Rightarrow> nat list \<Rightarrow> (nat \<Rightarrow> block_params) \<Rightarrow> nat \<Rightarrow> torch_error + EncoderBlock list" where
  "encoder_blocks n [] ss ps i = Inr []"
| "encoder_blocks n [c] ss ps i = Inr []"
| "encoder_blocks n (c # c' # cs) [] ps i = Inl IndexError"
| "encoder_blocks n (c # c' # cs) (s # ss) ps i =
     (case encoder_blocks n (c' # cs) ss ps (Suc i) of
        Inl e \<Rightarrow> Inl e
      | Inr bs \<Rightarrow> Inr (EncoderBlock_init (c * n) (c' * n) s (ps i) # bs))"

definition SoundStreamXLEncoder_init ::
  "nat \<Rightarrow> nat \<Rightarrow> nat \<Rightarrow> nat list \<Rightarrow> nat list \<Rightarrow>
   conv_params \<Rightarrow> (nat \<Rightarrow> block_params) \<Rightarrow> conv_params \<Rightarrow> torch_error + SoundStreamXLEncoder" where
  "SoundStreamXLEncoder_init n_channels latent_dim n_io_channels strides c_mults p0 ps p1 =
     (let cm = 1 # c_mults in
      case encoder_blocks n_channels cm strides ps 0 of
        Inl e \<Rightarrow> Inl e
      | Inr bs \<Rightarrow>
          Inr \<lparr> enc_first = Conv1d_init n_io_channels (hd cm * n_channels) 7 1 1 p0,
                enc_blocks = bs,
                enc_last = Conv1d_init (last cm * n_channels) latent_dim 3 1 1 p1 \<rparr>)"

definition SoundStreamXLEncoder_forward ::
  "SoundStreamXLEncoder \<Rightarrow> tensor \<Rightarrow> torch_error + tensor" where
  "SoundStreamXLEncoder_forward E =
     Sequential ([CausalConv1d_forward (enc_first E), ELU]
                 @ concat (map (\<lambda>b. [EncoderBlock_forward b, ELU]) (enc_blocks E))
                 @ [CausalConv1d_forward (enc_last E)])"

subsection \<open>CausalConvTranspose1d\<close>

text \<open>
  \<open>nn.ConvTranspose1d\<close> adds \<open>output_padding\<close> and keeps \<open>padding_mode\<close>; its
  weight has the shape (in_channels, out_channels, kernel_size), read as
  \<open>weight m ci co i\<close>. The length of the output of \<open>F.conv_transpose1d\<close> is
  \<open>(L - 1) s - 2 p + d (k - 1) + output_padding + 1\<close>. torch checks the stride, that
  the weight has at least one input channel, and the channel count of the input; an
  input with an empty batch is then given an empty output of that length without
  further checks; any other input without elements is rejected; otherwise the weight
  must have an output channel, the output padding must be smaller than the stride or
  the dilation, and the output must have at least one sample.
\<close>

record ConvTranspose1d = Conv1d +
  output_padding :: nat
  padding_mode :: string

definition conv_transpose1d_shape ::
  "nat \<Rightarrow> nat \<Rightarrow> nat \<Rightarrow> nat \<Rightarrow> nat \<Rightarrow> nat \<Rightarrow> nat \<Rightarrow> shape \<Rightarrow> torch_error + shape" where
  "conv_transpose1d_shape cin cout k s p opad d sh =
     (case sh of (B, C, L) \<Rightarrow>
        let out = (int L - 1) * int s - 2 * int p + int d * (int k - 1) + int opad + 1 in
        if s = 0 then Inl NonPositiveStride
        else if cin = 0 then Inl EmptyWeight
        else if C \<noteq> cin then Inl ChannelMismatch
        else if k = 0 \<or> d = 0 then Inl DegenerateKernel
        else if B = 0 then (if out < 0 then Inl OutputTooSmall else Inr (B, cout, nat out))
        else if L = 0 then Inl EmptyInput
        else if cout = 0 then Inl EmptyWeight
        else if max s d \<le> opad then Inl OutputPaddingTooLarge
        else if out < 1 then Inl OutputTooSmall
        else Inr (B, cout, nat out))"

definition F_conv_transpose1d :: "ConvTranspose1d \<Rightarrow> tensor \<Rightarrow> torch_error + tensor" where
  "F_conv_transpose1d m x =
     (case conv_transpose1d_shape (in_channels m) (out_channels m) (kernel_size m) (stride m)
             (padding m) (output_padding m) (dilation m) (shape_of x) of
        Inl e \<Rightarrow> Inl e
      | Inr (B, C, L) \<Rightarrow>
          Inr \<lparr> nbatch = B, nchan = C, ntime = L,
                val = (\<lambda>b co j. bias m co +
                  (\<Sum>ci<in_channels m. \<Sum>i<ntime x. \<Sum>l<kernel_size m.
                     if i * stride m + l * dilation m = j + padding m
                     then val x b ci i * weight m ci co l else 0)) \<rparr>)"

text \<open>
  \<open>self.causal_padding\<close> of the transposed convolution is a Python integer and may be
  zero or negative. \<open>y[..., :-c]\<close> keeps the indices below the stop \<open>-c\<close>: a
  negative stop counts from the end, a stop of 0 keeps nothing, a positive stop is
  clipped to the length.
\<close>

definition transpose_causal_padding :: "ConvTranspose1d \<Rightarrow> int" where
  "transpose_causal_padding m =
     int (dilation m) * (int (kernel_size m) - 1) + int (output_padding m) + 1 - int (stride m)"

definition slice_until_neg :: "int \<Rightarrow> tensor \<Rightarrow> tensor" where
  "slice_until_neg c y =
     y \<lparr> ntime := (if 0 < c then nat (int (ntime y) - c) else min (ntime y) (nat (- c))) \<rparr>"

text \<open>
  Construction runs \<open>nn.ConvTranspose1d.__init__\<close>, which raises \<open>ValueError\<close>
  for every padding mode but zeros, before \<open>causal_padding\<close> is set.
\<close>

definition CausalConvTranspose1d_init ::
  "nat \<Rightarrow> nat \<Rightarrow> nat \<Rightarrow> nat \<Rightarrow> nat \<Rightarrow> nat \<Rightarrow> nat \<Rightarrow> string \<Rightarrow> conv_params \<Rightarrow>
   torch_error + ConvTranspose1d" where
  "CausalConvTranspose1d_init cin cout k s p opad d mode prm =
     (if mode \<noteq> ''zeros'' then Inl ValueError
      else Inr \<lparr> in_channels = cin, out_channels = cout, kernel_size = k, stride = s,
                 padding = p, dilation = d, weight = fst prm, bias = snd prm,
                 output_padding = opad, padding_mode = mode \<rparr>)"

definition CausalConvTranspose1d_forward ::
  "ConvTranspose1d \<Rightarrow> tensor \<Rightarrow> torch_error + tensor" where
  "CausalConvTranspose1d_forward m x =
     (if padding_mode m \<noteq> ''zeros'' then Inl ValueError
      else case F_conv_transpose1d m x of
             Inl e \<Rightarrow> Inl e
           | Inr y \<Rightarrow> Inr (slice_until_neg (transpose_causal_padding m) y))"

subsection \<open>DecoderBlock\<close>

record DecoderBlock =
  db_up :: ConvTranspose1d
  db_unit1 :: ResidualUnit
  db_unit2 :: ResidualUnit
  db_unit3 :: ResidualUnit

type_synonym dblock_params = "conv_params \<times> unit_params \<times> unit_params \<times> unit_params"

text \<open>
  \<open>CausalConvTranspose1d(in_channels, out_channels, kernel_size=2*stride, stride=stride)\<close>
  leaves padding 0, output padding 0, dilation 1 and the zeros padding mode.
\<close>

definition DecoderBlock_init :: "nat \<Rightarrow> nat \<Rightarrow> nat \<Rightarrow> dblock_params \<Rightarrow> DecoderBlock" where
  "DecoderBlock_init cin cout s p =
     (case p of (p0, p1, p2, p3) \<Rightarrow>
       \<lparr> db_up = \<lparr> in_channels = cin, out_channels = cout, kernel_size = 2 * s, stride = s,
                   padding = 0, dilation = 1, weight = fst p0, bias = snd p0,
                   output_padding = 0, padding_mode = ''zeros'' \<rparr>,
         db_unit1 = ResidualUnit_init cout cout 1 p1,
         db_unit2 = ResidualUnit_init cout cout 3 p2,
         db_unit3 = ResidualUnit_init cout cout 9 p3 \<rparr>)"

definition DecoderBlock_forward :: "DecoderBlock \<Rightarrow> tensor \<Rightarrow> torch_error + tensor" where
  "DecoderBlock_forward db =
     Sequential [CausalConvTranspose1d_forward (db_up db), ELU,
                 ResidualUnit_forward (db_unit1 db), ELU,
                 ResidualUnit_forward (db_unit2 db), ELU,
                 ResidualUnit_forward (db_unit3 db)]"

subsection \<open>SoundStreamXLDecoder\<close>

record SoundStreamXLDecoder =
  dec_first :: Conv1d
  dec_blocks :: "DecoderBlock list"
  dec_last :: Conv1d

text \<open>
  The decoder has no stride or multiplier argument: both lists are local constants of
  its constructor. The loop \<open>for i in range(self.depth-1, 0, -1)\<close> builds its block
  from \<open>c_mults[i]\<close>, \<open>c_mults[i-1]\<close> and \<open>strides[i-1]\<close>.
\<close>

definition decoder_c_mults :: "nat list" where
  "decoder_c_mults = 1 # [2, 4, 4, 8, 16]"

definition decoder_strides :: "nat list" where
  "decoder_strides = [2, 2, 4, 5, 8]"

definition SoundStreamXLDecoder_init ::
  "nat \<Rightarrow> nat \<Rightarrow> nat \<Rightarrow> conv_params \<Rightarrow> (nat \<Rightarrow> dblock_params) \<Rightarrow> conv_params \<Rightarrow>
   SoundStreamXLDecoder" where
  "SoundStreamXLDecoder_init n_channels latent_dim n_io_channels p0 ps p1 =
     \<lparr> dec_first = Conv1d_init latent_dim (last decoder_c_mults * n_channels) 7 1 1 p0,
       dec_blocks =
         map (\<lambda>i. DecoderBlock_init (decoder_c_mults ! i * n_channels)
                     (decoder_c_mults ! (i - 1) * n_channels) (decoder_strides ! (i - 1)) (ps i))
             (rev [1..<length decoder_c_mults]),
       dec_last = Conv1d_init (decoder_c_mults ! 0 * n_channels) n_io_channels 7 1 1 p1 \<rparr>"

definition SoundStreamXLDecoder_forward ::
  "SoundStreamXLDecoder \<Rightarrow> tensor \<Rightarrow> torch_error + tensor" where
  "SoundStreamXLDecoder_forward D =
     Sequential ([CausalConv1d_forward (dec_first D), ELU]
                 @ concat (map (\<lambda>b. [DecoderBlock_forward b, ELU]) (dec_blocks D))
                 @ [CausalConv1d_forward (dec_last D)])"

text \<open>Decoding what the encoder produced, and the shape of a result.\<close>

definition decode_encode ::
  "SoundStreamXLEncoder \<Rightarrow> SoundStreamXLDecoder \<Rightarrow> tensor \<Rightarrow> torch_error + tensor" where
  "decode_encode E D x =
     (case SoundStreamXLEncoder_forward E x of
        Inl e \<Rightarrow> Inl e
      | Inr y \<Rightarrow> SoundStreamXLDecoder_forward D y)"

definition result_shape :: "torch_error + tensor \<Rightarrow> torch_error + shape" where
  "result_shape r = (case r of Inl e \<Rightarrow> Inl e | Inr y \<Rightarrow> Inr (shape_of y))"

section \<open>The forward pass of WaveDiscriminatorBlock on shapes\<close>

text \<open>
  The feature maps matter here only through their shapes, so the seven layers are
  modelled as functions on shapes. \<open>nn.ReflectionPad1d(p)\<close> needs an input longer than
  \<open>p\<close>; a grouped, weight-normalised convolution has the output shape of
  \<open>F.conv1d\<close>; \<open>LeakyReLU\<close> keeps the shape.
\<close>

definition ReflectionPad1d_shape :: "nat \<Rightarrow> shape \<Rightarrow> torch_error + shape" where
  "ReflectionPad1d_shape p sh =
     (case sh of (B, C, L) \<Rightarrow> if L \<le> p then Inl PaddingTooLarge else Inr (B, C, L + 2 * p))"

definition WNConv1d_shape ::
  "nat \<Rightarrow> nat \<Rightarrow> nat \<Rightarrow> nat \<Rightarrow> nat \<Rightarrow> shape \<Rightarrow> torch_error + shape" where
  "WNConv1d_shape cin cout k s p = conv1d_shape cin cout k s p 1"

definition LeakyReLU_shape :: "shape \<Rightarrow> torch_error + shape" where
  "LeakyReLU_shape sh = Inr sh"

definition WaveDiscriminatorBlock_layers :: "(shape \<Rightarrow> torch_error + shape) list" where
  "WaveDiscriminatorBlock_layers =
     [ Sequential [ReflectionPad1d_shape 7, WNConv1d_shape 1 16 15 1 0, LeakyReLU_shape],
       Sequential [WNConv1d_shape 16 64 41 4 20, LeakyReLU_shape],
       Sequential [WNConv1d_shape 64 256 41 4 20, LeakyReLU_shape],
       Sequential [WNConv1d_shape 256 1024 41 4 20, LeakyReLU_shape],
       Sequential [WNConv1d_shape 1024 1024 41 4 20, LeakyReLU_shape],
       Sequential [WNConv1d_shape 1024 1024 5 1 2, LeakyReLU_shape],
       WNConv1d_shape 1024 1 3 1 1 ]"

text \<open>\<open>forward\<close> applies the layers in turn and collects every intermediate result.\<close>

fun feature_maps :: "('a \<Rightarrow> torch_error + 'a) list \<Rightarrow> 'a \<Rightarrow> torch_error + 'a list" where
  "feature_maps [] x = Inr []"
| "feature_maps (l # ls) x =
     (case l x of
        Inl e \<Rightarrow> Inl e
      | Inr y \<Rightarrow> (case feature_maps ls y of Inl e \<Rightarrow> Inl e | Inr ys \<Rightarrow> Inr (y # ys)))"

definition WaveDiscriminatorBlock_forward :: "shape \<Rightarrow> torch_error + shape list" where
  "WaveDiscriminatorBlock_forward = feature_maps WaveDiscriminatorBlock_layers"

definition time_lengths :: "shape list \<Rightarrow> lengths list" where
  "time_lengths shs = map (\<lambda>sh. case sh of (B, C, L) \<Rightarrow> [int L]) shs"

section \<open>Causality, shapes and example inputs\<close>

text \<open>
  Two tensors agree up to time \<open>t\<close> when they have the same shape and the same value
  at every index whose time is at most \<open>t\<close>. A layer is causal with stride \<open>s\<close> when
  inputs that agree up to \<open>t * s\<close> give outputs that agree up to \<open>t\<close>.
\<close>

definition agree_upto :: "nat \<Rightarrow> tensor \<Rightarrow> tensor \<Rightarrow> bool" where
  "agree_upto t x y \<longleftrightarrow>
     shape_of x = shape_of y \<and>
     (\<forall>b<nbatch x. \<forall>c<nchan x. \<forall>i<ntime x. i \<le> t \<longrightarrow> val x b c i = val y b c i)"

definition causal_layer :: "nat \<Rightarrow> (tensor \<Rightarrow> torch_error + tensor) \<Rightarrow> bool" where
  "causal_layer s f \<longleftrightarrow>
     (\<forall>t x y x' y'. agree_upto (t * s) x y \<and> f x = Inr x' \<and> f y = Inr y' \<longrightarrow> agree_upto t x' y')"

text \<open>
  The total stride of an encoder is the product of the strides of its blocks'
  downsampling convolutions.
\<close>

definition total_stride :: "SoundStreamXLEncoder \<Rightarrow> nat" where
  "total_stride E = prod_list (map (\<lambda>b. stride (eb_down b)) (enc_blocks E))"

definition block_layers :: "EncoderBlock list \<Rightarrow> (tensor \<Rightarrow> torch_error + tensor) list" where
  "block_layers bs = concat (map (\<lambda>b. [EncoderBlock_forward b, ELU]) bs)"

text \<open>
  A layer maps shapes from \<open>C\<close> channels to \<open>C'\<close> channels with length function
  \<open>g\<close> when it succeeds on every non-empty input with \<open>C\<close> channels, keeps the batch
  size and returns \<open>C'\<close> channels and \<open>g L > 0\<close> time steps.
\<close>

definition maps_shape ::
  "(tensor \<Rightarrow> torch_error + tensor) \<Rightarrow> nat \<Rightarrow> nat \<Rightarrow> (nat \<Rightarrow> nat) \<Rightarrow> bool" where
  "maps_shape f C C' g \<longleftrightarrow>
     (\<forall>x. nchan x = C \<and> 0 < ntime x \<longrightarrow>
        (\<exists>y. f x = Inr y \<and> nbatch y = nbatch x \<and> nchan y = C' \<and>
             ntime y = g (ntime x) \<and> 0 < ntime y))"

text \<open>The length after a cascade of strided causal convolutions.\<close>

fun frames :: "nat list \<Rightarrow> nat \<Rightarrow> nat" where
  "frames [] L = L"
| "frames (s # ss) L = frames ss ((L - 1) div s + 1)"

text \<open>Parameters and inputs for the worked examples.\<close>

definition example_conv :: conv_params where
  "example_conv = ((\<lambda>co ci i. 1), (\<lambda>co. 0))"

definition example_block :: block_params where
  "example_block = ((example_conv, example_conv), (example_conv, example_conv),
                    (example_conv, example_conv), example_conv)"

definition example_dblock :: dblock_params where
  "example_dblock = (example_conv, (example_conv, example_conv),
                     (example_conv, example_conv), (example_conv, example_conv))"

definition constant_signal :: "nat \<Rightarrow> nat \<Rightarrow> nat \<Rightarrow> real \<Rightarrow> tensor" where
  "constant_signal B C T v = \<lparr> nbatch = B, nchan = C, ntime = T, val = (\<lambda>b c t. v) \<rparr>"

definition perturb_after :: "nat \<Rightarrow> tensor \<Rightarrow> tensor" where
  "perturb_after t x = x \<lparr> val := (\<lambda>b c i. if t < i then val x b c i + 1 else val x b c i) \<rparr>"

section \<open>Properties of the length bookkeeping\<close>

lemma wrap64_id: "- (2 ^ 63) \<le> v \<Longrightarrow> v < 2 ^ 63 \<Longrightarrow> wrap64 v = v"
  by (simp add: wrap64_def)

lemma tensor_add_scalar_in_range:
  assumes "\<forall>l\<in>set ls. - (2 ^ 63) \<le> l + n \<and> l + n < 2 ^ 63"
  shows "tensor_add_scalar ls n = map (\<lambda>l. l + n) ls"
  unfolding tensor_add_scalar_def
  by (rule map_cong [OF refl]) (use assms in \<open>simp add: wrap64_id\<close>)

lemma features_lengths_range_later:
  "n \<le> m \<Longrightarrow> \<forall>j. n \<le> j \<and> j < m \<longrightarrow> f ^ j \<noteq> k \<Longrightarrow>
   features_lengths_range f ls m k = features_lengths_range f ls n k"
proof (induction m)
  case 0
  then show ?case by simp
next
  case (Suc m)
  show ?case
  proof (cases "n = Suc m")
    case True
    then show ?thesis by simp
  next
    case False
    with Suc.prems have le: "n \<le> m" by simp
    from Suc.prems le have "f ^ m \<noteq> k" by auto
    moreover from Suc.prems have "\<forall>j. n \<le> j \<and> j < m \<longrightarrow> f ^ j \<noteq> k" by auto
    ultimately show ?thesis using Suc.IH [OF le] by simp
  qed
qed

lemma power_keys_distinct:
  fixes f :: int
  assumes "2 \<le> \<bar>f\<bar>" "i < j"
  shows "f ^ j \<noteq> f ^ i"
proof
  assume "f ^ j = f ^ i"
  then have "\<bar>f\<bar> ^ j = \<bar>f\<bar> ^ i" by (simp add: power_abs [symmetric])
  moreover have "\<bar>f\<bar> ^ i < \<bar>f\<bar> ^ j"
    using assms by (intro power_strict_increasing) auto
  ultimately show False by simp
qed

text \<open>
  C5. For the input length 1000 the block's sequence is 1000, 250, 63, 16, 4, 4, 4:
  each entry is \<open>floor((L + 4^j - 1) / 4^j)\<close>, not the repeated \<open>floor(_ / 4)\<close> that
  gives 62, 15, 3.
\<close>

theorem WaveDiscriminatorBlock_features_lengths_1000:
  "WaveDiscriminatorBlock_features_lengths [1000] =
     [[1000], [250], [63], [16], [4], [4], [4]]"
  by (simp add: WaveDiscriminatorBlock_features_lengths_def torch_div_floor_def
      tensor_add_scalar_def wrap64_def)

theorem spec_sequence_1000_refuted:
  "WaveDiscriminatorBlock_features_lengths [1000] \<noteq>
     [[1000], [250], [62], [15], [3], [3], [3]]"
  by (simp add: WaveDiscriminatorBlock_features_lengths_def torch_div_floor_def
      tensor_add_scalar_def wrap64_def)

text \<open>
  C6. The entry for scale \<open>i\<close> (key \<open>downsampling_factor ^ i\<close>) is the block's
  sequence on \<open>floor(L / 2 ^ i)\<close>: the divisor is a power of two whatever the
  downsampling factor is, matching the fixed stride-2 average pooling of \<open>forward\<close>.
  The entry is the one stored under the key as long as no later scale reuses the key,
  which is the case for every factor of absolute value at least two.
\<close>

theorem WaveDiscriminator_features_lengths_scale:
  assumes "i < num_D D"
    and "\<forall>j. i < j \<and> j < num_D D \<longrightarrow> downsampling_factor D ^ j \<noteq> downsampling_factor D ^ i"
  shows "WaveDiscriminator_features_lengths D ls (downsampling_factor D ^ i) =
     Some (WaveDiscriminatorBlock_features_lengths (torch_div_floor ls (2 ^ i)))"
proof -
  have "features_lengths_range (downsampling_factor D) ls (num_D D) (downsampling_factor D ^ i)
        = features_lengths_range (downsampling_factor D) ls (Suc i) (downsampling_factor D ^ i)"
    using assms by (intro features_lengths_range_later) (auto simp: Suc_le_eq)
  then show ?thesis by (simp add: WaveDiscriminator_features_lengths_def)
qed

theorem WaveDiscriminator_features_lengths_scale_witness:
  "WaveDiscriminator_features_lengths \<lparr>num_D = 3, downsampling_factor = 4\<rparr> [1000] (4 ^ 1) =
     Some [[500], [125], [32], [8], [2], [2], [2]]"
proof -
  let ?D = "\<lparr>num_D = 3, downsampling_factor = 4\<rparr>"
  have a: "(1::nat) < num_D ?D" by simp
  have b: "\<forall>j. 1 < j \<and> j < num_D ?D \<longrightarrow> downsampling_factor ?D ^ j \<noteq> downsampling_factor ?D ^ 1"
  proof (intro allI impI)
    fix j :: nat assume "1 < j \<and> j < num_D ?D"
    then have "j = 2" by simp
    then show "downsampling_factor ?D ^ j \<noteq> downsampling_factor ?D ^ 1" by simp
  qed
  show ?thesis
    using WaveDiscriminator_features_lengths_scale [of 1 ?D "[1000]", OF a b]
    by (simp add: WaveDiscriminatorBlock_features_lengths_def torch_div_floor_def
        tensor_add_scalar_def wrap64_def)
qed

theorem WaveDiscriminator_features_lengths_not_factor_power:
  "WaveDiscriminator_features_lengths \<lparr>num_D = 2, downsampling_factor = 4\<rparr> [1000] (4 ^ 1) \<noteq>
     Some (WaveDiscriminatorBlock_features_lengths (torch_div_floor [1000] (4 ^ 1)))"
  by (simp add: WaveDiscriminator_features_lengths_def numeral_2_eq_2
      WaveDiscriminatorBlock_features_lengths_def torch_div_floor_def tensor_add_scalar_def
      wrap64_def)

text \<open>
  C7. For a batch of lengths between \<open>-2^63 + 6\<close> and \<open>2^63 - 2\<close>, where neither
  \<open>lengths - 6\<close> nor \<open>lengths + 1\<close> wraps, \<open>STFTDiscriminator.features_lengths\<close>
  returns, entry by entry over the batch, the eight lengths \<open>L-6, L-6, (L-5) div 2,
  (L-5) div 2, (L-3) div 4, (L-3) div 4, (L+1) div 8, (L+1) div 8\<close>; for the length 64
  these are 58, 58, 29, 29, 15, 15, 8, 8. At the largest 64-bit length \<open>lengths + 1\<close>
  wraps and the last two entries are negative.
\<close>

theorem STFTDiscriminator_features_lengths_formula:
  "((\<forall>l\<in>set ls. - (2 ^ 63) + 6 \<le> l \<and> l \<le> 2 ^ 63 - 2) \<longrightarrow>
      STFTDiscriminator_features_lengths ls =
        [ map (\<lambda>L. L - 6) ls, map (\<lambda>L. L - 6) ls,
          map (\<lambda>L. (L - 5) div 2) ls, map (\<lambda>L. (L - 5) div 2) ls,
          map (\<lambda>L. (L - 3) div 4) ls, map (\<lambda>L. (L - 3) div 4) ls,
          map (\<lambda>L. (L + 1) div 8) ls, map (\<lambda>L. (L + 1) div 8) ls ])
   \<and> STFTDiscriminator_features_lengths [64] =
     [[58], [58], [29], [29], [15], [15], [8], [8]]"
proof (intro conjI impI)
  assume r: "\<forall>l\<in>set ls. - (2 ^ 63) + 6 \<le> l \<and> l \<le> 2 ^ 63 - 2"
  have a: "tensor_add_scalar ls n = map (\<lambda>l. l + n) ls" if "- 6 \<le> n" "n \<le> 1" for n
  proof (rule tensor_add_scalar_in_range, rule ballI)
    fix l assume "l \<in> set ls"
    with r have "- (2 ^ 63) + 6 \<le> l" "l \<le> 2 ^ 63 - 2" by auto
    with that show "- (2 ^ 63) \<le> l + n \<and> l + n < 2 ^ 63" by simp
  qed
  from a [of "- 6"] a [of "- 5"] a [of "- 3"] a [of 1] show "STFTDiscriminator_features_lengths ls =
        [ map (\<lambda>L. L - 6) ls, map (\<lambda>L. L - 6) ls,
          map (\<lambda>L. (L - 5) div 2) ls, map (\<lambda>L. (L - 5) div 2) ls,
          map (\<lambda>L. (L - 3) div 4) ls, map (\<lambda>L. (L - 3) div 4) ls,
          map (\<lambda>L. (L + 1) div 8) ls, map (\<lambda>L. (L + 1) div 8) ls ]"
    by (simp add: STFTDiscriminator_features_lengths_def torch_div_floor_def comp_def)
next
  show "STFTDiscriminator_features_lengths [64] =
     [[58], [58], [29], [29], [15], [15], [8], [8]]"
    by (simp add: STFTDiscriminator_features_lengths_def torch_div_floor_def
        tensor_add_scalar_def wrap64_def)
qed

theorem STFTDiscriminator_features_lengths_formula_witness:
  "- (2 ^ 63) + 6 \<le> (64 :: int) \<and> (1000 :: int) \<le> 2 ^ 63 - 2 \<and>
   STFTDiscriminator_features_lengths [64, 1000] =
     [[58, 994], [58, 994], [29, 497], [29, 497], [15, 249], [15, 249], [8, 125], [8, 125]]"
proof -
  have r: "\<forall>l\<in>set [64, 1000 :: int]. - (2 ^ 63) + 6 \<le> l \<and> l \<le> 2 ^ 63 - 2" by simp
  from STFTDiscriminator_features_lengths_formula [of "[64, 1000]"] r
  have "STFTDiscriminator_features_lengths [64, 1000] =
        [ map (\<lambda>L. L - 6) [64, 1000], map (\<lambda>L. L - 6) [64, 1000],
          map (\<lambda>L. (L - 5) div 2) [64, 1000], map (\<lambda>L. (L - 5) div 2) [64, 1000],
          map (\<lambda>L. (L - 3) div 4) [64, 1000], map (\<lambda>L. (L - 3) div 4) [64, 1000],
          map (\<lambda>L. (L + 1) div 8) [64, 1000], map (\<lambda>L. (L + 1) div 8) [64, 1000] ]"
    by blast
  with r show ?thesis by simp
qed

theorem STFTDiscriminator_features_lengths_wraps:
  "STFTDiscriminator_features_lengths [2 ^ 63 - 1] =
     [ [9223372036854775801], [9223372036854775801],
       [4611686018427387901], [4611686018427387901],
       [2305843009213693951], [2305843009213693951],
       [- 1152921504606846976], [- 1152921504606846976] ]
   \<and> ((2 ^ 63 - 1) + 1) div 8 = (1152921504606846976 :: int)"
  by (simp add: STFTDiscriminator_features_lengths_def torch_div_floor_def
      tensor_add_scalar_def wrap64_def)

section \<open>Causality of the layers\<close>

lemma agree_upto_mono: "agree_upto t x y \<Longrightarrow> t' \<le> t \<Longrightarrow> agree_upto t' x y"
  by (auto simp: agree_upto_def)

lemma agree_upto_F_pad:
  "agree_upto n x y \<Longrightarrow> agree_upto (n + l) (F_pad x l r) (F_pad y l r)"
  by (auto simp: agree_upto_def F_pad_def shape_of_def)

lemma agree_upto_F_pad_val:
  assumes "agree_upto n x y" "b < nbatch x" "c < nchan x" "j \<le> n + l"
  shows "val (F_pad x l r) b c j = val (F_pad y l r) b c j"
proof (cases "l \<le> j \<and> j < l + ntime x")
  case True
  then have "j - l < ntime x" "j - l \<le> n" using assms(4) by auto
  with assms(1-3) have "val x b c (j - l) = val y b c (j - l)"
    by (simp add: agree_upto_def)
  moreover from assms(1) have "ntime y = ntime x" by (simp add: agree_upto_def shape_of_def)
  ultimately show ?thesis using True by (simp add: F_pad_def)
next
  case False
  moreover from assms(1) have "ntime y = ntime x" by (simp add: agree_upto_def shape_of_def)
  ultimately show ?thesis by (auto simp: F_pad_def)
qed

lemma Conv1d_forward_shape:
  "Conv1d_forward m x = Inr y \<Longrightarrow>
   conv1d_shape (in_channels m) (out_channels m) (kernel_size m) (stride m)
     (padding m) (dilation m) (shape_of x) = Inr (shape_of y)"
  by (auto simp: Conv1d_forward_def shape_of_def split: sum.splits prod.splits)

lemma Conv1d_forward_val:
  "Conv1d_forward m x = Inr y \<Longrightarrow>
   val y b co u = bias m co +
     (\<Sum>ci<in_channels m. \<Sum>i<kernel_size m.
        weight m co ci i * val (F_pad x (padding m) (padding m)) b ci (u * stride m + i * dilation m))"
  by (auto simp: Conv1d_forward_def split: sum.splits prod.splits)

lemma conv1d_shape_Inr:
  "conv1d_shape cin cout k s p d (B, C, L) = Inr sh \<Longrightarrow>
   0 < s \<and> 0 < k \<and> 0 < d \<and> C = cin \<and> d * (k - 1) + 1 \<le> L + 2 * p \<and>
   sh = (B, cout, (L + 2 * p - d * (k - 1) - 1) div s + 1)"
  by (auto simp: conv1d_shape_def split: if_splits)

lemma Conv1d_forward_causal:
  assumes agr: "agree_upto (t * stride m + (kernel_size m - 1) * dilation m) x y"
    and fx: "Conv1d_forward m x = Inr x'" and fy: "Conv1d_forward m y = Inr y'"
  shows "agree_upto t x' y'"
proof -
  from agr have sh: "shape_of x = shape_of y" by (simp add: agree_upto_def)
  with Conv1d_forward_shape [OF fx] Conv1d_forward_shape [OF fy]
  have sh': "shape_of x' = shape_of y'" by simp
  from Conv1d_forward_shape [OF fx] have cin: "nchan x = in_channels m"
    by (cases "shape_of x") (auto simp: shape_of_def dest!: conv1d_shape_Inr)
  have "val x' b co u = val y' b co u" if "b < nbatch x'" "u \<le> t" for b co u
  proof -
    from Conv1d_forward_shape [OF fx] have nb: "nbatch x' = nbatch x"
      by (auto simp: shape_of_def dest!: conv1d_shape_Inr)
    have "val (F_pad x (padding m) (padding m)) b ci (u * stride m + i * dilation m)
        = val (F_pad y (padding m) (padding m)) b ci (u * stride m + i * dilation m)"
      if "ci < in_channels m" "i < kernel_size m" for ci i
    proof -
      have a: "u * stride m \<le> t * stride m" using \<open>u \<le> t\<close> by simp
      have b: "i * dilation m \<le> (kernel_size m - 1) * dilation m"
        using that by (intro mult_le_mono1) simp
      have "u * stride m + i * dilation m
          \<le> t * stride m + (kernel_size m - 1) * dilation m + padding m"
        by (rule trans_le_add1 [OF add_mono [OF a b]])
      moreover have "b < nbatch x" "ci < nchan x"
        using that \<open>b < nbatch x'\<close> nb cin by simp_all
      ultimately show ?thesis
        by (intro agree_upto_F_pad_val [OF agr])
    qed
    then show ?thesis
      by (simp add: Conv1d_forward_val [OF fx] Conv1d_forward_val [OF fy])
  qed
  with sh' show ?thesis by (auto simp: agree_upto_def)
qed

lemma CausalConv1d_forward_causal:
  assumes "agree_upto (t * stride m) x y"
    and "CausalConv1d_forward m x = Inr x'" and "CausalConv1d_forward m y = Inr y'"
  shows "agree_upto t x' y'"
proof -
  have "agree_upto (t * stride m + causal_padding m)
          (F_pad x (causal_padding m) 0) (F_pad y (causal_padding m) 0)"
    by (rule agree_upto_F_pad [OF assms(1)])
  then have "agree_upto (t * stride m + (kernel_size m - 1) * dilation m)
          (F_pad x (causal_padding m) 0) (F_pad y (causal_padding m) 0)"
    by (simp add: causal_padding_def mult.commute)
  then show ?thesis
    using assms(2,3) unfolding CausalConv1d_forward_def by (rule Conv1d_forward_causal)
qed

lemma agree_uptoD:
  "agree_upto t x y \<Longrightarrow> b < nbatch x \<Longrightarrow> c < nchan x \<Longrightarrow> i < ntime x \<Longrightarrow> i \<le> t \<Longrightarrow>
   val x b c i = val y b c i"
  by (simp add: agree_upto_def)

lemma agree_upto_shape: "agree_upto t x y \<Longrightarrow> shape_of x = shape_of y"
  by (simp add: agree_upto_def)

lemma causal_layerI:
  "(\<And>t x y x' y'. agree_upto (t * s) x y \<Longrightarrow> f x = Inr x' \<Longrightarrow> f y = Inr y' \<Longrightarrow> agree_upto t x' y')
   \<Longrightarrow> causal_layer s f"
  unfolding causal_layer_def by blast

lemma causal_layerD:
  "causal_layer s f \<Longrightarrow> agree_upto (t * s) x y \<Longrightarrow> f x = Inr x' \<Longrightarrow> f y = Inr y' \<Longrightarrow>
   agree_upto t x' y'"
  unfolding causal_layer_def by blast

lemma causal_CausalConv1d: "causal_layer (stride m) (CausalConv1d_forward m)"
  by (rule causal_layerI) (rule CausalConv1d_forward_causal)

lemma causal_pointwise:
  "kernel_size m = 1 \<Longrightarrow> causal_layer (stride m) (Conv1d_forward m)"
  by (rule causal_layerI) (rule Conv1d_forward_causal, simp_all)

lemma causal_ELU: "causal_layer 1 ELU"
  by (rule causal_layerI) (auto simp: ELU_def agree_upto_def shape_of_def)

lemma causal_Sequential_Nil: "causal_layer 1 (Sequential [])"
  by (rule causal_layerI) simp

lemma causal_Sequential_Cons:
  assumes f: "causal_layer s f" and fs: "causal_layer s' (Sequential fs)"
  shows "causal_layer (s * s') (Sequential (f # fs))"
proof (rule causal_layerI)
  fix t x y x' y'
  assume agr: "agree_upto (t * (s * s')) x y"
    and x: "Sequential (f # fs) x = Inr x'" and y: "Sequential (f # fs) y = Inr y'"
  from x obtain x1 where x1: "f x = Inr x1" "Sequential fs x1 = Inr x'"
    by (auto split: sum.splits)
  from y obtain y1 where y1: "f y = Inr y1" "Sequential fs y1 = Inr y'"
    by (auto split: sum.splits)
  from agr have "agree_upto ((t * s') * s) x y"
    by (simp only: mult.assoc mult.commute [of s' s])
  from causal_layerD [OF f this x1(1) y1(1)] have "agree_upto (t * s') x1 y1" .
  from causal_layerD [OF fs this x1(2) y1(2)] show "agree_upto t x' y'" .
qed

lemma Sequential_append:
  "Sequential (fs @ gs) x = (case Sequential fs x of Inl e \<Rightarrow> Inl e | Inr y \<Rightarrow> Sequential gs y)"
  by (induction fs arbitrary: x) (auto split: sum.splits)

lemma causal_Sequential_append:
  assumes f: "causal_layer s (Sequential fs)" and g: "causal_layer s' (Sequential gs)"
  shows "causal_layer (s * s') (Sequential (fs @ gs))"
proof (rule causal_layerI)
  fix t x y x' y'
  assume agr: "agree_upto (t * (s * s')) x y"
    and x: "Sequential (fs @ gs) x = Inr x'" and y: "Sequential (fs @ gs) y = Inr y'"
  from x obtain x1 where x1: "Sequential fs x = Inr x1" "Sequential gs x1 = Inr x'"
    by (auto simp: Sequential_append split: sum.splits)
  from y obtain y1 where y1: "Sequential fs y = Inr y1" "Sequential gs y1 = Inr y'"
    by (auto simp: Sequential_append split: sum.splits)
  from agr have "agree_upto ((t * s') * s) x y"
    by (simp only: mult.assoc mult.commute [of s' s])
  from causal_layerD [OF f this x1(1) y1(1)] have "agree_upto (t * s') x1 y1" .
  from causal_layerD [OF g this x1(2) y1(2)] show "agree_upto t x' y'" .
qed

lemma broadcast_index_bound:
  "broadcast_dim a b = Some B \<Longrightarrow> i < B \<Longrightarrow>
   broadcast_index a i < a \<and> broadcast_index b i < b"
  by (auto simp: broadcast_dim_def broadcast_index_def split: if_splits)

lemma broadcast_index_le: "broadcast_index a i \<le> i"
  by (simp add: broadcast_index_def)

lemma tensor_add_Inr:
  assumes "tensor_add x y = Inr z"
  shows "broadcast_dim (nbatch x) (nbatch y) = Some (nbatch z) \<and>
   broadcast_dim (nchan x) (nchan y) = Some (nchan z) \<and>
   broadcast_dim (ntime x) (ntime y) = Some (ntime z) \<and>
   val z = (\<lambda>b c t.
      val x (broadcast_index (nbatch x) b) (broadcast_index (nchan x) c)
            (broadcast_index (ntime x) t) +
      val y (broadcast_index (nbatch y) b) (broadcast_index (nchan y) c)
            (broadcast_index (ntime y) t))"
proof -
  obtain B where B: "broadcast_dim (nbatch x) (nbatch y) = Some B"
    using assms by (cases "broadcast_dim (nbatch x) (nbatch y)") (simp_all add: tensor_add_def)
  obtain C where C: "broadcast_dim (nchan x) (nchan y) = Some C"
    using assms B by (cases "broadcast_dim (nchan x) (nchan y)") (simp_all add: tensor_add_def)
  obtain L where L: "broadcast_dim (ntime x) (ntime y) = Some L"
    using assms B C by (cases "broadcast_dim (ntime x) (ntime y)") (simp_all add: tensor_add_def)
  from assms have "z = \<lparr> nbatch = B, nchan = C, ntime = L,
                val = (\<lambda>b c t.
                  val x (broadcast_index (nbatch x) b) (broadcast_index (nchan x) c)
                        (broadcast_index (ntime x) t) +
                  val y (broadcast_index (nbatch y) b) (broadcast_index (nchan y) c)
                        (broadcast_index (ntime y) t)) \<rparr>"
    unfolding tensor_add_def B C L by simp
  then show ?thesis using B C L by simp
qed

lemma tensor_add_agree:
  assumes a1: "agree_upto t x y" and a2: "agree_upto t x2 y2"
    and ax: "tensor_add x x2 = Inr a" and ay: "tensor_add y y2 = Inr b"
  shows "agree_upto t a b"
proof -
  note A = tensor_add_Inr [OF ax] and B = tensor_add_Inr [OF ay]
  from a1 a2 have sh: "nbatch y = nbatch x" "nchan y = nchan x" "ntime y = ntime x"
    "nbatch y2 = nbatch x2" "nchan y2 = nchan x2" "ntime y2 = ntime x2"
    by (simp_all add: agree_upto_def shape_of_def)
  with A B have shab: "shape_of a = shape_of b" by (simp add: shape_of_def)
  have "val a bb c i = val b bb c i" if "bb < nbatch a" "c < nchan a" "i < ntime a" "i \<le> t"
    for bb c i
  proof -
    from A that have r: "broadcast_index (nbatch x) bb < nbatch x"
        "broadcast_index (nbatch x2) bb < nbatch x2"
        "broadcast_index (nchan x) c < nchan x" "broadcast_index (nchan x2) c < nchan x2"
        "broadcast_index (ntime x) i < ntime x" "broadcast_index (ntime x2) i < ntime x2"
      by (auto dest: broadcast_index_bound)
    have le: "broadcast_index (ntime x) i \<le> t" "broadcast_index (ntime x2) i \<le> t"
      using broadcast_index_le [of "ntime x" i] broadcast_index_le [of "ntime x2" i] that(4)
      by simp_all
    from agree_uptoD [OF a1 r(1) r(3) r(5) le(1)] agree_uptoD [OF a2 r(2) r(4) r(6) le(2)]
    show ?thesis using A B sh by simp
  qed
  with shab show ?thesis by (simp add: agree_upto_def)
qed

lemma causal_residual:
  assumes g: "causal_layer 1 g"
  shows "causal_layer 1 (\<lambda>x. case g x of Inl e \<Rightarrow> Inl e | Inr y \<Rightarrow> tensor_add x y)"
proof (rule causal_layerI)
  fix t x y x' y'
  assume agr: "agree_upto (t * 1) x y"
    and x: "(case g x of Inl e \<Rightarrow> Inl e | Inr y \<Rightarrow> tensor_add x y) = Inr x'"
    and y: "(case g y of Inl e \<Rightarrow> Inl e | Inr z \<Rightarrow> tensor_add y z) = Inr y'"
  from x obtain x1 where x1: "g x = Inr x1" "tensor_add x x1 = Inr x'"
    by (auto split: sum.splits)
  from y obtain y1 where y1: "g y = Inr y1" "tensor_add y y1 = Inr y'"
    by (auto split: sum.splits)
  from causal_layerD [OF g agr x1(1) y1(1)] have a2: "agree_upto t x1 y1" .
  from agr have a1: "agree_upto t x y" by simp
  show "agree_upto t x' y'" by (rule tensor_add_agree [OF a1 a2 x1(2) y1(2)])
qed

lemma causal_ResidualUnit_init:
  "causal_layer 1 (ResidualUnit_forward (ResidualUnit_init cin cout d p))"
proof -
  let ?ru = "ResidualUnit_init cin cout d p"
  have c1: "causal_layer 1 (CausalConv1d_forward (ru_causal ?ru))"
    using causal_CausalConv1d [of "ru_causal ?ru"]
    by (simp add: ResidualUnit_init_def Conv1d_init_def)
  have c3: "causal_layer 1 (Conv1d_forward (ru_pointwise ?ru))"
    using causal_pointwise [of "ru_pointwise ?ru"]
    by (simp add: ResidualUnit_init_def Conv1d_init_def)
  have "causal_layer (1 * (1 * (1 * 1))) (ResidualUnit_layers ?ru)"
    unfolding ResidualUnit_layers_def
    by (intro causal_Sequential_Cons c1 c3 causal_ELU causal_Sequential_Nil)
  then have "causal_layer 1 (ResidualUnit_layers ?ru)" by simp
  from causal_residual [OF this] show ?thesis
    by (simp add: ResidualUnit_forward_def [abs_def])
qed

lemma causal_EncoderBlock_init:
  "causal_layer s (EncoderBlock_forward (EncoderBlock_init cin cout s p))"
proof -
  obtain p1 p2 p3 p4 where p: "p = (p1, p2, p3, p4)" by (cases p) auto
  let ?eb = "EncoderBlock_init cin cout s p"
  have d: "causal_layer s (CausalConv1d_forward (eb_down ?eb))"
    using causal_CausalConv1d [of "eb_down ?eb"]
    by (simp add: EncoderBlock_init_def Conv1d_init_def p)
  have u: "causal_layer 1 (ResidualUnit_forward (eb_unit1 ?eb))"
    "causal_layer 1 (ResidualUnit_forward (eb_unit2 ?eb))"
    "causal_layer 1 (ResidualUnit_forward (eb_unit3 ?eb))"
    by (simp_all add: EncoderBlock_init_def p causal_ResidualUnit_init [unfolded One_nat_def])
  have "causal_layer (1 * (1 * (1 * (1 * (1 * (1 * (s * 1)))))))
          (EncoderBlock_forward ?eb)"
    unfolding EncoderBlock_forward_def
    by (intro causal_Sequential_Cons u d causal_ELU causal_Sequential_Nil)
  then show ?thesis by simp
qed

lemma stride_eb_down_init [simp]: "stride (eb_down (EncoderBlock_init cin cout s p)) = s"
  by (cases p) (simp add: EncoderBlock_init_def Conv1d_init_def)

lemma encoder_blocks_init:
  "encoder_blocks n cm ss ps i = Inr bs \<Longrightarrow>
   \<forall>b\<in>set bs. \<exists>cin cout s p. b = EncoderBlock_init cin cout s p"
proof (induction n cm ss ps i arbitrary: bs rule: encoder_blocks.induct)
  case (4 n c c' cs s ss ps i)
  from "4.prems" obtain bs' where bs': "encoder_blocks n (c' # cs) ss ps (Suc i) = Inr bs'"
    and bs: "bs = EncoderBlock_init (c * n) (c' * n) s (ps i) # bs'"
    by (auto split: sum.splits)
  show ?case unfolding bs
    by (intro ballI) (metis "4.IH" [OF bs'] set_ConsD)
qed simp_all

lemma encoder_blocks_strides:
  "encoder_blocks n cm ss ps i = Inr bs \<Longrightarrow>
   map (\<lambda>b. stride (eb_down b)) bs = take (length cm - 1) ss"
proof (induction n cm ss ps i arbitrary: bs rule: encoder_blocks.induct)
  case (4 n c c' cs s ss ps i)
  from "4.prems" obtain bs' where bs': "encoder_blocks n (c' # cs) ss ps (Suc i) = Inr bs'"
    and bs: "bs = EncoderBlock_init (c * n) (c' * n) s (ps i) # bs'"
    by (auto split: sum.splits)
  from "4.IH" [OF bs'] bs show ?case by simp
qed simp_all

lemma causal_block_layers:
  "\<forall>b\<in>set bs. \<exists>cin cout s p. b = EncoderBlock_init cin cout s p \<Longrightarrow>
   causal_layer (prod_list (map (\<lambda>b. stride (eb_down b)) bs)) (Sequential (block_layers bs))"
proof (induction bs)
  case Nil
  show ?case unfolding block_layers_def
    by (simp only: list.map concat.simps prod_list.Nil causal_Sequential_Nil)
next
  case (Cons b bs)
  then obtain cin cout s p where b: "b = EncoderBlock_init cin cout s p" by auto
  from Cons have IH: "causal_layer (prod_list (map (\<lambda>b. stride (eb_down b)) bs))
     (Sequential (block_layers bs))" by simp
  have "causal_layer (s * (1 * prod_list (map (\<lambda>b. stride (eb_down b)) bs)))
     (Sequential (EncoderBlock_forward b # ELU # block_layers bs))"
    unfolding b
    by (rule causal_Sequential_Cons [OF causal_EncoderBlock_init
          causal_Sequential_Cons [OF causal_ELU IH]])
  then show ?case unfolding block_layers_def b
    by (simp only: list.map concat.simps append.simps prod_list.Cons stride_eb_down_init
        mult_1)
qed

lemma causal_SoundStreamXLEncoder:
  assumes "SoundStreamXLEncoder_init n ld nio strides c_mults p0 ps p1 = Inr E"
  shows "causal_layer (total_stride E) (SoundStreamXLEncoder_forward E)"
proof -
  from assms obtain bs where bs: "encoder_blocks n (1 # c_mults) strides ps 0 = Inr bs"
    and E: "E = \<lparr> enc_first = Conv1d_init nio (hd (1 # c_mults) * n) 7 1 1 p0,
                enc_blocks = bs,
                enc_last = Conv1d_init (last (1 # c_mults) * n) ld 3 1 1 p1 \<rparr>"
    by (auto simp: SoundStreamXLEncoder_init_def Let_def split: sum.splits)
  have first: "causal_layer 1 (CausalConv1d_forward (enc_first E))"
    using causal_CausalConv1d [of "enc_first E"] by (simp add: E Conv1d_init_def)
  have last: "causal_layer 1 (CausalConv1d_forward (enc_last E))"
    using causal_CausalConv1d [of "enc_last E"] by (simp add: E Conv1d_init_def)
  have blocks: "causal_layer (total_stride E) (Sequential (block_layers (enc_blocks E)))"
    unfolding total_stride_def
    using causal_block_layers [OF encoder_blocks_init [OF bs]] by (simp add: E)
  have head: "causal_layer (1 * (1 * 1)) (Sequential [CausalConv1d_forward (enc_first E), ELU])"
    by (rule causal_Sequential_Cons [OF first
          causal_Sequential_Cons [OF causal_ELU causal_Sequential_Nil]])
  have tail: "causal_layer (1 * 1) (Sequential [CausalConv1d_forward (enc_last E)])"
    by (rule causal_Sequential_Cons [OF last causal_Sequential_Nil])
  have "causal_layer ((1 * (1 * 1)) * (total_stride E * (1 * 1)))
     (Sequential ([CausalConv1d_forward (enc_first E), ELU]
        @ (block_layers (enc_blocks E) @ [CausalConv1d_forward (enc_last E)])))"
    by (rule causal_Sequential_append [OF head causal_Sequential_append [OF blocks tail]])
  then show ?thesis
    by (simp add: SoundStreamXLEncoder_forward_def block_layers_def)
qed

section \<open>Shapes of the layers\<close>

lemma maps_shapeI:
  "(\<And>x. nchan x = C \<Longrightarrow> 0 < ntime x \<Longrightarrow>
      \<exists>y. f x = Inr y \<and> nbatch y = nbatch x \<and> nchan y = C' \<and>
          ntime y = g (ntime x) \<and> 0 < ntime y)
   \<Longrightarrow> maps_shape f C C' g"
  unfolding maps_shape_def by blast

lemma maps_shapeD:
  "maps_shape f C C' g \<Longrightarrow> nchan x = C \<Longrightarrow> 0 < ntime x \<Longrightarrow>
   \<exists>y. f x = Inr y \<and> nbatch y = nbatch x \<and> nchan y = C' \<and>
       ntime y = g (ntime x) \<and> 0 < ntime y"
  unfolding maps_shape_def by blast

lemma maps_shape_cong:
  "maps_shape f C C' g \<Longrightarrow> (\<And>L. 0 < L \<Longrightarrow> g L = g' L) \<Longrightarrow> maps_shape f C C' g'"
  unfolding maps_shape_def by (metis (no_types, lifting))

lemma maps_shape_Sequential_Nil: "maps_shape (Sequential []) C C (\<lambda>L. L)"
  by (rule maps_shapeI) simp

lemma maps_shape_Sequential_Cons:
  assumes f: "maps_shape f C C' g" and fs: "maps_shape (Sequential fs) C' C'' g'"
  shows "maps_shape (Sequential (f # fs)) C C'' (\<lambda>L. g' (g L))"
proof (rule maps_shapeI)
  fix x :: tensor assume x: "nchan x = C" "0 < ntime x"
  from maps_shapeD [OF f x] obtain y where y: "f x = Inr y" "nbatch y = nbatch x"
    "nchan y = C'" "ntime y = g (ntime x)" "0 < ntime y" by blast
  from maps_shapeD [OF fs y(3) y(5)] obtain z where z: "Sequential fs y = Inr z"
    "nbatch z = nbatch y" "nchan z = C''" "ntime z = g' (ntime y)" "0 < ntime z" by blast
  from y z show "\<exists>z. Sequential (f # fs) x = Inr z \<and> nbatch z = nbatch x \<and> nchan z = C'' \<and>
          ntime z = g' (g (ntime x)) \<and> 0 < ntime z"
    by simp
qed

lemma maps_shape_Sequential_append:
  assumes f: "maps_shape (Sequential fs) C C' g" and gs: "maps_shape (Sequential gs) C' C'' g'"
  shows "maps_shape (Sequential (fs @ gs)) C C'' (\<lambda>L. g' (g L))"
proof (rule maps_shapeI)
  fix x :: tensor assume x: "nchan x = C" "0 < ntime x"
  from maps_shapeD [OF f x] obtain y where y: "Sequential fs x = Inr y" "nbatch y = nbatch x"
    "nchan y = C'" "ntime y = g (ntime x)" "0 < ntime y" by blast
  from maps_shapeD [OF gs y(3) y(5)] obtain z where z: "Sequential gs y = Inr z"
    "nbatch z = nbatch y" "nchan z = C''" "ntime z = g' (ntime y)" "0 < ntime z" by blast
  from y z show "\<exists>z. Sequential (fs @ gs) x = Inr z \<and> nbatch z = nbatch x \<and> nchan z = C'' \<and>
          ntime z = g' (g (ntime x)) \<and> 0 < ntime z"
    by (simp add: Sequential_append)
qed

lemma maps_shape_ELU: "maps_shape ELU C C (\<lambda>L. L)"
  by (rule maps_shapeI) (simp add: ELU_def)

lemma Conv1d_forward_ok:
  assumes "nchan x = in_channels m" "0 < stride m" "0 < kernel_size m" "0 < dilation m"
    and "dilation m * (kernel_size m - 1) + 1 \<le> ntime x + 2 * padding m"
    and "0 < out_channels m" "0 < ntime x"
  shows "\<exists>y. Conv1d_forward m x = Inr y \<and> nbatch y = nbatch x \<and> nchan y = out_channels m \<and>
     ntime y = (ntime x + 2 * padding m - dilation m * (kernel_size m - 1) - 1) div stride m + 1"
  using assms by (simp add: Conv1d_forward_def conv1d_shape_def shape_of_def)

lemma CausalConv1d_forward_ok:
  assumes "nchan x = in_channels m" "0 < stride m" "0 < kernel_size m" "0 < dilation m"
    and "padding m = 0" "0 < ntime x" "0 < out_channels m"
  shows "\<exists>y. CausalConv1d_forward m x = Inr y \<and> nbatch y = nbatch x \<and>
     nchan y = out_channels m \<and> ntime y = (ntime x - 1) div stride m + 1"
proof -
  let ?x = "F_pad x (causal_padding m) 0"
  have "nchan ?x = in_channels m" using assms by (simp add: F_pad_def)
  moreover have "dilation m * (kernel_size m - 1) + 1 \<le> ntime ?x + 2 * padding m"
    using assms by (simp add: F_pad_def causal_padding_def)
  moreover have "0 < ntime ?x" using assms by (simp add: F_pad_def)
  ultimately obtain y where y: "Conv1d_forward m ?x = Inr y" "nbatch y = nbatch ?x"
    "nchan y = out_channels m"
    "ntime y = (ntime ?x + 2 * padding m - dilation m * (kernel_size m - 1) - 1) div stride m + 1"
    using Conv1d_forward_ok [of ?x m] assms(2-4) assms(7) by blast
  have "ntime ?x + 2 * padding m - dilation m * (kernel_size m - 1) - 1 = ntime x - 1"
    using assms by (simp add: F_pad_def causal_padding_def)
  with y show ?thesis by (simp add: CausalConv1d_forward_def F_pad_def)
qed

lemma maps_shape_CausalConv1d:
  assumes "0 < stride m" "0 < kernel_size m" "0 < dilation m" "padding m = 0"
    and "0 < out_channels m"
  shows "maps_shape (CausalConv1d_forward m) (in_channels m) (out_channels m)
           (\<lambda>L. (L - 1) div stride m + 1)"
proof (rule maps_shapeI)
  fix x :: tensor assume "nchan x = in_channels m" "0 < ntime x"
  with CausalConv1d_forward_ok [of x m] assms
  show "\<exists>y. CausalConv1d_forward m x = Inr y \<and> nbatch y = nbatch x \<and>
     nchan y = out_channels m \<and> ntime y = (ntime x - 1) div stride m + 1 \<and> 0 < ntime y"
    by auto
qed

lemma maps_shape_pointwise:
  assumes "stride m = 1" "kernel_size m = 1" "0 < dilation m" "padding m = 0"
    and "0 < out_channels m"
  shows "maps_shape (Conv1d_forward m) (in_channels m) (out_channels m) (\<lambda>L. L)"
proof (rule maps_shapeI)
  fix x :: tensor assume "nchan x = in_channels m" "0 < ntime x"
  with Conv1d_forward_ok [of x m] assms
  show "\<exists>y. Conv1d_forward m x = Inr y \<and> nbatch y = nbatch x \<and>
     nchan y = out_channels m \<and> ntime y = ntime x \<and> 0 < ntime y"
    by auto
qed

lemma tensor_add_same_shape:
  assumes "shape_of x = shape_of y"
  shows "\<exists>z. tensor_add x y = Inr z \<and> shape_of z = shape_of x \<and>
     (\<forall>b<nbatch x. \<forall>c<nchan x. \<forall>t<ntime x. val z b c t = val x b c t + val y b c t)"
proof -
  from assms have d: "broadcast_dim (nbatch x) (nbatch y) = Some (nbatch x)"
    "broadcast_dim (nchan x) (nchan y) = Some (nchan x)"
    "broadcast_dim (ntime x) (ntime y) = Some (ntime x)"
    and e: "nbatch y = nbatch x" "nchan y = nchan x" "ntime y = ntime x"
    by (simp_all add: broadcast_dim_def shape_of_def)
  have i: "broadcast_index n j = j" if "j < n" for n j
    using that by (auto simp: broadcast_index_def)
  have s: "broadcast_dim n n = Some n" for n
    by (simp add: broadcast_dim_def)
  show ?thesis
    by (simp add: tensor_add_def e s shape_of_def i)
qed

lemma maps_shape_ResidualUnit_init:
  assumes "0 < d" "0 < c"
  shows "maps_shape (ResidualUnit_forward (ResidualUnit_init c c d p)) c c (\<lambda>L. L)"
proof (rule maps_shapeI)
  let ?ru = "ResidualUnit_init c c d p"
  fix x :: tensor assume x: "nchan x = c" "0 < ntime x"
  have "maps_shape (CausalConv1d_forward (ru_causal ?ru)) c c (\<lambda>L. (L - 1) div 1 + 1)"
    using maps_shape_CausalConv1d [of "ru_causal ?ru"] assms
    by (simp add: ResidualUnit_init_def Conv1d_init_def)
  then have c1: "maps_shape (CausalConv1d_forward (ru_causal ?ru)) c c (\<lambda>L. L)"
    by (rule maps_shape_cong) simp
  have c3: "maps_shape (Conv1d_forward (ru_pointwise ?ru)) c c (\<lambda>L. L)"
    using maps_shape_pointwise [of "ru_pointwise ?ru"] assms
    by (simp add: ResidualUnit_init_def Conv1d_init_def)
  have "maps_shape (ResidualUnit_layers ?ru) c c (\<lambda>L. L)"
    unfolding ResidualUnit_layers_def
    by (rule maps_shape_Sequential_Cons [OF c1
          maps_shape_Sequential_Cons [OF maps_shape_ELU
            maps_shape_Sequential_Cons [OF c3 maps_shape_Sequential_Nil]]])
  from maps_shapeD [OF this x] obtain y where y: "ResidualUnit_layers ?ru x = Inr y"
    "nbatch y = nbatch x" "nchan y = c" "ntime y = ntime x" by blast
  with x have "shape_of x = shape_of y" by (simp add: shape_of_def)
  from tensor_add_same_shape [OF this] obtain z where "tensor_add x y = Inr z"
    "shape_of z = shape_of x" by blast
  with y x show "\<exists>y. ResidualUnit_forward ?ru x = Inr y \<and> nbatch y = nbatch x \<and> nchan y = c \<and>
          ntime y = ntime x \<and> 0 < ntime y"
    by (simp add: ResidualUnit_forward_def shape_of_def)
qed

lemma maps_shape_EncoderBlock_init:
  assumes "0 < s" "0 < cin" "0 < cout"
  shows "maps_shape (EncoderBlock_forward (EncoderBlock_init cin cout s p)) cin cout
           (\<lambda>L. (L - 1) div s + 1)"
proof -
  obtain p1 p2 p3 p4 where p: "p = (p1, p2, p3, p4)" by (cases p) auto
  let ?eb = "EncoderBlock_init cin cout s p"
  have d: "maps_shape (CausalConv1d_forward (eb_down ?eb)) cin cout (\<lambda>L. (L - 1) div s + 1)"
    using maps_shape_CausalConv1d [of "eb_down ?eb"] assms
    by (simp add: EncoderBlock_init_def Conv1d_init_def p)
  have u: "maps_shape (ResidualUnit_forward (eb_unit1 ?eb)) cin cin (\<lambda>L. L)"
    "maps_shape (ResidualUnit_forward (eb_unit2 ?eb)) cin cin (\<lambda>L. L)"
    "maps_shape (ResidualUnit_forward (eb_unit3 ?eb)) cin cin (\<lambda>L. L)"
    using assms by (simp_all add: EncoderBlock_init_def p maps_shape_ResidualUnit_init)
  show ?thesis
    unfolding EncoderBlock_forward_def
    by (rule maps_shape_Sequential_Cons [OF u(1)
          maps_shape_Sequential_Cons [OF maps_shape_ELU
          maps_shape_Sequential_Cons [OF u(2)
          maps_shape_Sequential_Cons [OF maps_shape_ELU
          maps_shape_Sequential_Cons [OF u(3)
          maps_shape_Sequential_Cons [OF maps_shape_ELU
          maps_shape_Sequential_Cons [OF d maps_shape_Sequential_Nil]]]]]]])
qed

lemma CausalConv1d_forward_Inl:
  assumes "conv1d_shape (in_channels m) (out_channels m) (kernel_size m) (stride m)
             (padding m) (dilation m) (nbatch x, nchan x, causal_padding m + ntime x) = Inl e"
  shows "CausalConv1d_forward m x = Inl e"
  using assms by (simp add: CausalConv1d_forward_def Conv1d_forward_def shape_of_def F_pad_def)

lemma Conv1d_forward_Inl:
  assumes "conv1d_shape (in_channels m) (out_channels m) (kernel_size m) (stride m)
             (padding m) (dilation m) (shape_of x) = Inl e"
  shows "Conv1d_forward m x = Inl e"
  using assms by (simp add: Conv1d_forward_def)

lemma ceil_div_dvd:
  assumes "(s::nat) dvd L" "0 < L" "0 < s"
  shows "(L - 1) div s + 1 = L div s"
proof -
  from assms obtain q where q: "L = s * q" by (auto elim: dvdE)
  with assms have "0 < q" by (cases q) auto
  then obtain r where r: "q = Suc r" by (cases q) auto
  have e: "s * Suc r - 1 = s * r + (s - 1)" using assms(3) by (simp add: algebra_simps)
  have "(s * r + (s - 1)) div s = r + (s - 1) div s"
    using assms(3) by (intro div_mult_self4) simp
  moreover have "(s - 1) div s = 0" using assms(3) by (intro div_less) simp
  ultimately have "(s * r + (s - 1)) div s = r" by (simp only: add_0_right)
  then have "(s * Suc r - 1) div s = r" by (simp only: e)
  with q r assms(3) show ?thesis by simp
qed

lemma frames_dvd:
  "prod_list ss dvd L \<Longrightarrow> 0 < L \<Longrightarrow> \<forall>s\<in>set ss. 0 < s \<Longrightarrow> frames ss L = L div prod_list ss"
proof (induction ss arbitrary: L)
  case Nil
  then show ?case by simp
next
  case (Cons s ss)
  from Cons.prems have s: "0 < s" "s dvd L" by (auto dest: dvd_mult_left)
  from Cons.prems(1) obtain q where q: "L = s * prod_list ss * q" by (auto elim: dvdE)
  then have Ls: "L div s = prod_list ss * q" using s(1) by (simp add: mult.assoc)
  with Cons.prems(2) s have pos: "0 < L div s" by (simp add: q)
  have dv: "prod_list ss dvd L div s" by (simp add: Ls)
  have "frames (s # ss) L = frames ss (L div s)"
    using ceil_div_dvd [OF s(2) Cons.prems(2) s(1)] by simp
  also have "\<dots> = L div s div prod_list ss"
    using Cons.IH [OF dv pos] Cons.prems(3) by simp
  also have "\<dots> = L div prod_list (s # ss)" by (simp add: div_mult2_eq)
  finally show ?case .
qed

lemma maps_shape_encoder_blocks:
  "encoder_blocks n cm ss ps i = Inr bs \<Longrightarrow> cm \<noteq> [] \<Longrightarrow>
   \<forall>s\<in>set (take (length cm - 1) ss). 0 < s \<Longrightarrow> 0 < n \<Longrightarrow> \<forall>c\<in>set cm. 0 < c \<Longrightarrow>
   maps_shape (Sequential (block_layers bs)) (hd cm * n) (last cm * n)
     (frames (take (length cm - 1) ss))"
proof (induction n cm ss ps i arbitrary: bs rule: encoder_blocks.induct)
  case (4 n c c' cs s ss ps i)
  from "4.prems" obtain bs' where bs': "encoder_blocks n (c' # cs) ss ps (Suc i) = Inr bs'"
    and bs: "bs = EncoderBlock_init (c * n) (c' * n) s (ps i) # bs'"
    by (auto split: sum.splits)
  from "4.prems"(3) have s: "0 < s" and ss: "\<forall>s\<in>set (take (length (c' # cs) - 1) ss). 0 < s"
    by simp_all
  from "4.prems"(4,5) have ch: "0 < c * n" "0 < c' * n" and cs: "\<forall>c\<in>set (c' # cs). 0 < c"
    by simp_all
  from "4.IH" [OF bs' _ ss "4.prems"(4) cs]
  have IH: "maps_shape (Sequential (block_layers bs')) (c' * n) (last (c' # cs) * n)
     (frames (take (length cs) ss))" by simp
  have "maps_shape (Sequential (EncoderBlock_forward (EncoderBlock_init (c * n) (c' * n) s (ps i))
            # ELU # block_layers bs')) (c * n) (last (c' # cs) * n)
          (\<lambda>L. (\<lambda>L. frames (take (length cs) ss) ((\<lambda>L. L) L)) ((\<lambda>L. (L - 1) div s + 1) L))"
    by (rule maps_shape_Sequential_Cons [OF maps_shape_EncoderBlock_init [OF s ch]
          maps_shape_Sequential_Cons [OF maps_shape_ELU IH]])
  then have "maps_shape (Sequential (block_layers bs)) (c * n) (last (c' # cs) * n)
          (\<lambda>L. frames (take (length cs) ss) ((L - 1) div s + 1))"
    unfolding bs block_layers_def
    by (simp only: list.map concat.simps append.simps)
  then have "maps_shape (Sequential (block_layers bs)) (c * n) (last (c' # cs) * n)
          (frames (s # take (length cs) ss))"
    by (rule maps_shape_cong) simp
  moreover have "hd (c # c' # cs) = c" "last (c # c' # cs) = last (c' # cs)"
    "take (length (c # c' # cs) - 1) (s # ss) = s # take (length cs) ss"
    by simp_all
  ultimately show ?case by (simp only:)
next
  case (1 n ss ps i)
  then show ?case by simp
next
  case (2 n c ss ps i)
  then have bs: "bs = []" by simp
  have "maps_shape (Sequential []) (c * n) (c * n) (\<lambda>L. L)"
    by (rule maps_shape_Sequential_Nil)
  then have "maps_shape (Sequential []) (c * n) (c * n) (frames [])"
    by (rule maps_shape_cong) simp
  moreover have "block_layers [] = []" "hd [c] = c" "last [c] = c"
    "take (length [c] - 1) ss = []"
    by (simp_all add: block_layers_def)
  ultimately show ?case unfolding bs by (simp only:)
next
  case (3 n c c' cs ps i)
  then show ?case by simp
qed

lemma SoundStreamXLEncoder_init_Inr:
  assumes "SoundStreamXLEncoder_init n ld nio strides c_mults p0 ps p1 = Inr E"
  shows "\<exists>bs. encoder_blocks n (1 # c_mults) strides ps 0 = Inr bs \<and>
     E = \<lparr> enc_first = Conv1d_init nio (1 * n) 7 1 1 p0, enc_blocks = bs,
           enc_last = Conv1d_init (last (1 # c_mults) * n) ld 3 1 1 p1 \<rparr>"
  using assms by (auto simp: SoundStreamXLEncoder_init_def Let_def split: sum.splits)

lemma total_stride_init:
  assumes "SoundStreamXLEncoder_init n ld nio strides c_mults p0 ps p1 = Inr E"
  shows "total_stride E = prod_list (take (length c_mults) strides)"
proof -
  from SoundStreamXLEncoder_init_Inr [OF assms] obtain bs
    where bs: "encoder_blocks n (1 # c_mults) strides ps 0 = Inr bs" and E: "enc_blocks E = bs"
    by auto
  from encoder_blocks_strides [OF bs] E show ?thesis by (simp add: total_stride_def)
qed

lemma maps_shape_SoundStreamXLEncoder:
  assumes init: "SoundStreamXLEncoder_init n ld nio strides c_mults p0 ps p1 = Inr E"
    and pos: "\<forall>s\<in>set (take (length c_mults) strides). 0 < s"
    and ch: "0 < n" "0 < ld" "\<forall>c\<in>set c_mults. 0 < c"
  shows "maps_shape (SoundStreamXLEncoder_forward E) nio ld
           (frames (take (length c_mults) strides))"
proof -
  from SoundStreamXLEncoder_init_Inr [OF init] obtain bs
    where bs: "encoder_blocks n (1 # c_mults) strides ps 0 = Inr bs"
      and E: "E = \<lparr> enc_first = Conv1d_init nio (1 * n) 7 1 1 p0, enc_blocks = bs,
           enc_last = Conv1d_init (last (1 # c_mults) * n) ld 3 1 1 p1 \<rparr>"
    by blast
  have "maps_shape (CausalConv1d_forward (enc_first E)) nio (1 * n) (\<lambda>L. (L - 1) div 1 + 1)"
    using maps_shape_CausalConv1d [of "enc_first E"] ch by (simp add: E Conv1d_init_def)
  then have first: "maps_shape (CausalConv1d_forward (enc_first E)) nio (1 * n) (\<lambda>L. L)"
    by (rule maps_shape_cong) simp
  have "maps_shape (CausalConv1d_forward (enc_last E)) (last (1 # c_mults) * n) ld
          (\<lambda>L. (L - 1) div 1 + 1)"
    using maps_shape_CausalConv1d [of "enc_last E"] ch by (simp add: E Conv1d_init_def)
  then have last: "maps_shape (CausalConv1d_forward (enc_last E)) (last (1 # c_mults) * n) ld
          (\<lambda>L. L)"
    by (rule maps_shape_cong) simp
  have blocks: "maps_shape (Sequential (block_layers (enc_blocks E))) (1 * n)
          (last (1 # c_mults) * n) (frames (take (length c_mults) strides))"
    using maps_shape_encoder_blocks [OF bs] pos ch by (simp add: E)
  have head: "maps_shape (Sequential [CausalConv1d_forward (enc_first E), ELU]) nio (1 * n)
          (\<lambda>L. (\<lambda>L. (\<lambda>L. L) ((\<lambda>L. L) L)) ((\<lambda>L. L) L))"
    by (rule maps_shape_Sequential_Cons [OF first
          maps_shape_Sequential_Cons [OF maps_shape_ELU maps_shape_Sequential_Nil]])
  have tail: "maps_shape (Sequential [CausalConv1d_forward (enc_last E)])
          (last (1 # c_mults) * n) ld (\<lambda>L. (\<lambda>L. L) ((\<lambda>L. L) L))"
    by (rule maps_shape_Sequential_Cons [OF last maps_shape_Sequential_Nil])
  have "maps_shape (Sequential ([CausalConv1d_forward (enc_first E), ELU]
        @ (block_layers (enc_blocks E) @ [CausalConv1d_forward (enc_last E)]))) nio ld
        (\<lambda>L. (\<lambda>L. (\<lambda>L. L) (frames (take (length c_mults) strides) L)) ((\<lambda>L. L) L))"
    using maps_shape_Sequential_append [OF head maps_shape_Sequential_append [OF blocks tail]]
    by simp
  then have "maps_shape (SoundStreamXLEncoder_forward E) nio ld
        (\<lambda>L. frames (take (length c_mults) strides) L)"
    unfolding SoundStreamXLEncoder_forward_def block_layers_def by simp
  then show ?thesis by simp
qed

lemma F_conv_transpose1d_ok:
  assumes "nchan x = in_channels m" "0 < stride m" "0 < kernel_size m" "0 < dilation m"
    and "output_padding m < max (stride m) (dilation m)" "0 < ntime x"
    and "2 * padding m < (ntime x - 1) * stride m + dilation m * (kernel_size m - 1)
           + output_padding m + 1"
    and "0 < in_channels m" "0 < out_channels m"
  shows "\<exists>y. F_conv_transpose1d m x = Inr y \<and> nbatch y = nbatch x \<and>
     nchan y = out_channels m \<and>
     ntime y = (ntime x - 1) * stride m + dilation m * (kernel_size m - 1)
                 + output_padding m + 1 - 2 * padding m"
proof -
  let ?n = "(ntime x - 1) * stride m + dilation m * (kernel_size m - 1)
                 + output_padding m + 1 - 2 * padding m"
  let ?out = "(int (ntime x) - 1) * int (stride m) - 2 * int (padding m)
                + int (dilation m) * (int (kernel_size m) - 1) + int (output_padding m) + 1"
  have a: "int (ntime x) - 1 = int (ntime x - 1)" "int (kernel_size m) - 1 = int (kernel_size m - 1)"
    using assms(3,6) by simp_all
  let ?A = "(ntime x - 1) * stride m + dilation m * (kernel_size m - 1) + output_padding m + 1"
  have "?out = int ?A - int (2 * padding m)" unfolding a by simp
  also have "\<dots> = int (?A - 2 * padding m)"
    using assms(7) by (intro of_nat_diff [symmetric]) simp
  finally have out: "?out = int ?n" .
  have pos: "0 < ?n" using assms(7) by simp
  have n1: "nat ?out = ?n" using out by (metis nat_int)
  have n2: "\<not> ?out < 1" "\<not> ?out < 0" using out pos by linarith+
  note n = n1 n2
  have "conv_transpose1d_shape (in_channels m) (out_channels m) (kernel_size m) (stride m)
          (padding m) (output_padding m) (dilation m) (shape_of x)
        = Inr (nbatch x, out_channels m, ?n)"
    using assms(1-6) assms(8,9) n
    by (auto simp: conv_transpose1d_shape_def shape_of_def Let_def)
  then show ?thesis by (simp add: F_conv_transpose1d_def)
qed

lemma CausalConvTranspose1d_forward_len:
  assumes "padding_mode m = ''zeros''" "F_conv_transpose1d m x = Inr y"
  shows "\<exists>z. CausalConvTranspose1d_forward m x = Inr z \<and> nbatch z = nbatch y \<and>
     nchan z = nchan y \<and> val z = val y \<and>
     ntime z = (if 0 < transpose_causal_padding m
                then nat (int (ntime y) - transpose_causal_padding m)
                else min (ntime y) (nat (- transpose_causal_padding m)))"
  using assms by (simp add: CausalConvTranspose1d_forward_def slice_until_neg_def)

lemma maps_shape_db_up:
  assumes "0 < s" "0 < cin" "0 < cout"
  shows "maps_shape (CausalConvTranspose1d_forward (db_up (DecoderBlock_init cin cout s p)))
           cin cout (\<lambda>L. L * s)"
proof (rule maps_shapeI)
  obtain p0 p1 p2 p3 where p: "p = (p0, p1, p2, p3)" by (cases p) auto
  let ?m = "db_up (DecoderBlock_init cin cout s p)"
  have m: "in_channels ?m = cin" "out_channels ?m = cout" "kernel_size ?m = 2 * s"
    "stride ?m = s" "padding ?m = 0" "dilation ?m = 1" "output_padding ?m = 0"
    "padding_mode ?m = ''zeros''"
    by (simp_all add: DecoderBlock_init_def p)
  fix x :: tensor assume x: "nchan x = cin" "0 < ntime x"
  from F_conv_transpose1d_ok [of x ?m] x assms m
  obtain y where y: "F_conv_transpose1d ?m x = Inr y" "nbatch y = nbatch x" "nchan y = cout"
    "ntime y = (ntime x - 1) * s + (2 * s - 1) + 1"
    by auto
  have cp: "transpose_causal_padding ?m = int s"
    using assms by (simp add: transpose_causal_padding_def m)
  from CausalConvTranspose1d_forward_len [OF m(8) y(1)] cp assms
  obtain z where z: "CausalConvTranspose1d_forward ?m x = Inr z" "nbatch z = nbatch y"
    "nchan z = nchan y" "ntime z = nat (int (ntime y) - int s)"
    by auto
  from x(2) obtain r where r: "ntime x = Suc r" by (cases "ntime x") auto
  have "ntime y = ntime x * s + s" using assms by (simp add: y(4) r algebra_simps)
  then have "int (ntime y) - int s = int (ntime x * s)" by simp
  then have nz: "ntime z = ntime x * s" by (simp only: z(4) nat_int)
  have pos: "0 < ntime x * s" using x(2) assms by simp
  from z(1) z(2) z(3) y(2) y(3) nz pos
  show "\<exists>z. CausalConvTranspose1d_forward ?m x = Inr z \<and> nbatch z = nbatch x \<and>
     nchan z = cout \<and> ntime z = ntime x * s \<and> 0 < ntime z"
    by simp
qed

lemma maps_shape_DecoderBlock_init:
  assumes "0 < s" "0 < cin" "0 < cout"
  shows "maps_shape (DecoderBlock_forward (DecoderBlock_init cin cout s p)) cin cout
           (\<lambda>L. L * s)"
proof -
  obtain p0 p1 p2 p3 where p: "p = (p0, p1, p2, p3)" by (cases p) auto
  let ?db = "DecoderBlock_init cin cout s p"
  have u: "maps_shape (ResidualUnit_forward (db_unit1 ?db)) cout cout (\<lambda>L. L)"
    "maps_shape (ResidualUnit_forward (db_unit2 ?db)) cout cout (\<lambda>L. L)"
    "maps_shape (ResidualUnit_forward (db_unit3 ?db)) cout cout (\<lambda>L. L)"
    using assms by (simp_all add: DecoderBlock_init_def p maps_shape_ResidualUnit_init)
  show ?thesis
    unfolding DecoderBlock_forward_def
    by (rule maps_shape_Sequential_Cons [OF maps_shape_db_up [OF assms]
          maps_shape_Sequential_Cons [OF maps_shape_ELU
          maps_shape_Sequential_Cons [OF u(1)
          maps_shape_Sequential_Cons [OF maps_shape_ELU
          maps_shape_Sequential_Cons [OF u(2)
          maps_shape_Sequential_Cons [OF maps_shape_ELU
          maps_shape_Sequential_Cons [OF u(3) maps_shape_Sequential_Nil]]]]]]])
qed

lemma dec_blocks_init:
  "dec_blocks (SoundStreamXLDecoder_init n ld nio p0 ps p1) =
     [ DecoderBlock_init (16 * n) (8 * n) 8 (ps 5),
       DecoderBlock_init (8 * n) (4 * n) 5 (ps 4),
       DecoderBlock_init (4 * n) (4 * n) 4 (ps 3),
       DecoderBlock_init (4 * n) (2 * n) 2 (ps 2),
       DecoderBlock_init (2 * n) (1 * n) 2 (ps 1) ]"
proof -
  have r: "rev [1..<length decoder_c_mults] = [5, 4, 3, 2, 1]"
    by (simp add: decoder_c_mults_def upt_rec)
  show ?thesis unfolding SoundStreamXLDecoder_init_def r
    by (simp add: decoder_c_mults_def decoder_strides_def)
qed

lemma maps_shape_block_step:
  assumes "0 < s" "0 < cin" "0 < cout" and "maps_shape (Sequential fs) cout C g"
  shows "maps_shape (Sequential (DecoderBlock_forward (DecoderBlock_init cin cout s p) # ELU # fs))
           cin C (\<lambda>L. g (L * s))"
  by (rule maps_shape_Sequential_Cons [OF maps_shape_DecoderBlock_init [OF assms(1-3)]
        maps_shape_Sequential_Cons [OF maps_shape_ELU assms(4)]])

lemma maps_shape_SoundStreamXLDecoder:
  assumes "0 < n" "0 < nio"
  shows "maps_shape (SoundStreamXLDecoder_forward (SoundStreamXLDecoder_init n ld nio p0 ps p1))
     ld nio (\<lambda>L. 640 * L)"
proof -
  let ?D = "SoundStreamXLDecoder_init n ld nio p0 ps p1"
  have "maps_shape (CausalConv1d_forward (dec_first ?D)) ld (16 * n) (\<lambda>L. (L - 1) div 1 + 1)"
    using maps_shape_CausalConv1d [of "dec_first ?D"] assms
    by (simp add: SoundStreamXLDecoder_init_def Conv1d_init_def decoder_c_mults_def)
  then have first: "maps_shape (CausalConv1d_forward (dec_first ?D)) ld (16 * n) (\<lambda>L. L)"
    by (rule maps_shape_cong) simp
  have "maps_shape (CausalConv1d_forward (dec_last ?D)) (1 * n) nio (\<lambda>L. (L - 1) div 1 + 1)"
    using maps_shape_CausalConv1d [of "dec_last ?D"] assms
    by (simp add: SoundStreamXLDecoder_init_def Conv1d_init_def decoder_c_mults_def)
  then have last: "maps_shape (CausalConv1d_forward (dec_last ?D)) (1 * n) nio (\<lambda>L. L)"
    by (rule maps_shape_cong) simp
  note tail = maps_shape_Sequential_Cons [OF last maps_shape_Sequential_Nil]
  note b1 = maps_shape_block_step [of 2 "2 * n" "1 * n" _ _ _ "ps 1", OF _ _ _ tail]
  note b2 = maps_shape_block_step [of 2 "4 * n" "2 * n" _ _ _ "ps 2", OF _ _ _ b1]
  note b3 = maps_shape_block_step [of 4 "4 * n" "4 * n" _ _ _ "ps 3", OF _ _ _ b2]
  note b4 = maps_shape_block_step [of 5 "8 * n" "4 * n" _ _ _ "ps 4", OF _ _ _ b3]
  note b5 = maps_shape_block_step [of 8 "16 * n" "8 * n" _ _ _ "ps 5", OF _ _ _ b4]
  note all = maps_shape_Sequential_Cons [OF first maps_shape_Sequential_Cons [OF maps_shape_ELU b5]]
  have "maps_shape (Sequential ([CausalConv1d_forward (dec_first ?D), ELU]
           @ concat (map (\<lambda>b. [DecoderBlock_forward b, ELU]) (dec_blocks ?D))
           @ [CausalConv1d_forward (dec_last ?D)])) ld nio
         (\<lambda>L. L * 8 * 5 * 4 * 2 * 2)"
    unfolding dec_blocks_init
    apply (simp only: list.map concat.simps append.simps)
    apply (rule all)
    using assms apply simp_all
    done
  then have "maps_shape (SoundStreamXLDecoder_forward ?D) ld nio (\<lambda>L. L * 8 * 5 * 4 * 2 * 2)"
    by (simp only: SoundStreamXLDecoder_forward_def)
  then show ?thesis by (rule maps_shape_cong) simp
qed

section \<open>The codec: total stride, lengths and causality\<close>

lemma SoundStreamXLEncoder_init_default:
  "\<exists>E. SoundStreamXLEncoder_init n ld nio default_strides default_c_mults p0 ps p1 = Inr E"
  by (simp add: SoundStreamXLEncoder_init_def default_strides_def default_c_mults_def)

lemma default_encoder_total_stride:
  "map_sum id total_stride
     (SoundStreamXLEncoder_init n ld nio default_strides default_c_mults p0 ps p1) = Inr 640"
proof -
  from SoundStreamXLEncoder_init_default obtain E
    where E: "SoundStreamXLEncoder_init n ld nio default_strides default_c_mults p0 ps p1 = Inr E"
    by blast
  from total_stride_init [OF E] have "total_stride E = 640"
    by (simp add: default_strides_def default_c_mults_def)
  with E show ?thesis by simp
qed

lemma strides_pos_of_dvd:
  assumes "prod_list (ss :: nat list) dvd T" "0 < T"
  shows "\<forall>s\<in>set ss. 0 < s"
proof -
  from assms have "prod_list ss \<noteq> 0" by (auto simp: dvd_def)
  then have "0 \<notin> set ss" by (simp add: prod_list_zero_iff)
  then show ?thesis by (metis gr0I)
qed

lemma SoundStreamXLEncoder_first_fails:
  assumes "SoundStreamXLEncoder_init n ld nio strides c_mults p0 ps p1 = Inr E"
    and "CausalConv1d_forward (Conv1d_init nio (1 * n) 7 1 1 p0) x = Inl e"
  shows "SoundStreamXLEncoder_forward E x = Inl e"
proof -
  from SoundStreamXLEncoder_init_Inr [OF assms(1)]
  have "enc_first E = Conv1d_init nio (1 * n) 7 1 1 p0" by auto
  with assms(2) show ?thesis by (simp add: SoundStreamXLEncoder_forward_def)
qed

lemma decode_encode_shape:
  assumes init: "SoundStreamXLEncoder_init n ld nio strides c_mults p0 ps p1 = Inr E"
    and x: "nchan x = nio" "0 < ntime x" and dv: "total_stride E dvd ntime x"
    and ch: "0 < n" "0 < ld" "0 < nio" "0 < n'" "\<forall>c\<in>set c_mults. 0 < c"
  shows "\<exists>y z. SoundStreamXLEncoder_forward E x = Inr y \<and>
           shape_of y = (nbatch x, ld, ntime x div total_stride E) \<and>
           SoundStreamXLDecoder_forward (SoundStreamXLDecoder_init n' ld nio q0 qs q1) y = Inr z \<and>
           shape_of z = (nbatch x, nio, 640 * (ntime x div total_stride E))"
proof -
  let ?ss = "take (length c_mults) strides"
  have ts: "total_stride E = prod_list ?ss" by (rule total_stride_init [OF init])
  with dv have dv': "prod_list ?ss dvd ntime x" by simp
  from strides_pos_of_dvd [OF dv' x(2)] have pos: "\<forall>s\<in>set ?ss. 0 < s" .
  from maps_shapeD [OF maps_shape_SoundStreamXLEncoder [OF init pos ch(1) ch(2) ch(5)] x]
  obtain y where y: "SoundStreamXLEncoder_forward E x = Inr y" "nbatch y = nbatch x"
    "nchan y = ld" "ntime y = frames ?ss (ntime x)" "0 < ntime y" by blast
  from frames_dvd [OF dv' x(2) pos] y(4) ts
  have ny: "ntime y = ntime x div total_stride E" by simp
  from maps_shapeD [OF maps_shape_SoundStreamXLDecoder [OF ch(4) ch(3)] y(3) y(5)]
  obtain z where z: "SoundStreamXLDecoder_forward (SoundStreamXLDecoder_init n' ld nio q0 qs q1) y = Inr z"
    "nbatch z = nbatch y" "nchan z = nio" "ntime z = 640 * ntime y" by blast
  from y z ny show ?thesis by (auto simp: shape_of_def)
qed

lemma agree_upto_perturb_after: "agree_upto t x (perturb_after t x)"
  by (simp add: agree_upto_def perturb_after_def shape_of_def)

text \<open>
  C1. The default stride list of the encoder is 2, 2, 4, 5, 8 and the total stride of
  the encoder built from it, the product of its block strides, is 640 (not 3200).
\<close>

theorem total_stride_default_640:
  "prod_list default_strides = 640 \<and>
   map_sum id total_stride
     (SoundStreamXLEncoder_init n ld nio default_strides default_c_mults p0 ps p1) = Inr 640"
  using default_encoder_total_stride by (simp add: default_strides_def)

theorem total_stride_default_not_3200:
  "map_sum id total_stride
     (SoundStreamXLEncoder_init 1 1 1 default_strides default_c_mults
        example_conv (\<lambda>i. example_block) example_conv) \<noteq> Inr 3200"
  using default_encoder_total_stride [of 1 1 1 example_conv "\<lambda>i. example_block" example_conv]
  by simp

text \<open>
  C2. For an encoder built with any stride list and positive channel counts, and a
  non-empty input whose length \<open>T\<close> is divisible by the encoder's total stride
  \<open>R\<close>, the encoder returns exactly \<open>T div R\<close> frames. The decoder, whose strides
  are the constants 2, 2, 4, 5, 8 of its constructor, returns \<open>640 * (T div R)\<close>
  samples, which is \<open>T\<close> when the encoder has the total stride 640, as with its
  default strides. With other encoder strides the decoder does not return \<open>T\<close>
  samples; an input without samples and a channel count of 0 make the encoder raise.
\<close>

theorem decode_encode_length:
  assumes "SoundStreamXLEncoder_init n ld nio strides c_mults p0 ps p1 = Inr E"
    and "nchan x = nio" "0 < ntime x" and "total_stride E dvd ntime x"
    and "0 < n" "0 < ld" "0 < nio" "0 < n'" "\<forall>c\<in>set c_mults. 0 < c"
  shows "\<exists>y z. SoundStreamXLEncoder_forward E x = Inr y \<and>
           shape_of y = (nbatch x, ld, ntime x div total_stride E) \<and>
           SoundStreamXLDecoder_forward (SoundStreamXLDecoder_init n' ld nio q0 qs q1) y = Inr z \<and>
           shape_of z = (nbatch x, nio, 640 * (ntime x div total_stride E)) \<and>
           (total_stride E = 640 \<longrightarrow> ntime z = ntime x)"
proof -
  from decode_encode_shape [OF assms, of q0 qs q1] obtain y z
    where yz: "SoundStreamXLEncoder_forward E x = Inr y"
      "shape_of y = (nbatch x, ld, ntime x div total_stride E)"
      "SoundStreamXLDecoder_forward (SoundStreamXLDecoder_init n' ld nio q0 qs q1) y = Inr z"
      "shape_of z = (nbatch x, nio, 640 * (ntime x div total_stride E))"
    by blast
  have "ntime z = ntime x" if "total_stride E = 640"
    using yz(4) assms(4) that by (simp add: shape_of_def)
  with yz show ?thesis by blast
qed

theorem decode_encode_length_witness:
  "\<exists>E y z.
     SoundStreamXLEncoder_init 1 1 1 default_strides default_c_mults
        example_conv (\<lambda>i. example_block) example_conv = Inr E \<and>
     total_stride E = 640 \<and>
     SoundStreamXLEncoder_forward E (constant_signal 1 1 1280 0) = Inr y \<and>
     shape_of y = (1, 1, 2) \<and>
     SoundStreamXLDecoder_forward
       (SoundStreamXLDecoder_init 1 1 1 example_conv (\<lambda>i. example_dblock) example_conv) y = Inr z \<and>
     shape_of z = (1, 1, 1280)"
proof -
  let ?x = "constant_signal 1 1 1280 0"
  from SoundStreamXLEncoder_init_default obtain E
    where E: "SoundStreamXLEncoder_init 1 1 1 default_strides default_c_mults
        example_conv (\<lambda>i. example_block) example_conv = Inr E"
    by blast
  from total_stride_init [OF E] have ts: "total_stride E = 640"
    by (simp add: default_strides_def default_c_mults_def)
  have x: "nchan ?x = 1" "0 < ntime ?x" "nbatch ?x = 1" "ntime ?x = 1280"
    by (simp_all add: constant_signal_def)
  have dv: "total_stride E dvd ntime ?x" unfolding ts constant_signal_def by simp
  have ch: "(0::nat) < 1" "\<forall>c\<in>set default_c_mults. 0 < c"
    by (simp_all add: default_c_mults_def)
  from decode_encode_length [OF E x(1) x(2) dv ch(1) ch(1) ch(1) ch(1) ch(2),
      of example_conv "\<lambda>i. example_dblock" example_conv]
  show ?thesis using E ts x by auto
qed

theorem decode_encode_stride_mismatch:
  "map_sum id total_stride
     (SoundStreamXLEncoder_init 1 1 1 [2, 2, 2, 2, 2] default_c_mults
        example_conv (\<lambda>i. example_block) example_conv) = Inr 32 \<and>
   (case SoundStreamXLEncoder_init 1 1 1 [2, 2, 2, 2, 2] default_c_mults
        example_conv (\<lambda>i. example_block) example_conv of
      Inl e \<Rightarrow> Inl e
    | Inr E \<Rightarrow>
        result_shape (decode_encode E
          (SoundStreamXLDecoder_init 1 1 1 example_conv (\<lambda>i. example_dblock) example_conv)
          (constant_signal 1 1 32 0))) = Inr (1, 1, 640) \<and>
   (case SoundStreamXLEncoder_init 1 1 1 default_strides default_c_mults
        example_conv (\<lambda>i. example_block) example_conv of
      Inl e \<Rightarrow> Inl e
    | Inr E \<Rightarrow> result_shape (SoundStreamXLEncoder_forward E (constant_signal 1 1 0 0)))
     = Inl KernelTooLarge \<and>
   (case SoundStreamXLEncoder_init 0 1 1 default_strides default_c_mults
        example_conv (\<lambda>i. example_block) example_conv of
      Inl e \<Rightarrow> Inl e
    | Inr E \<Rightarrow> result_shape (SoundStreamXLEncoder_forward E (constant_signal 1 1 640 0)))
     = Inl EmptyWeight"
proof (intro conjI)
  let ?x = "constant_signal 1 1 32 0"
  obtain E where E: "SoundStreamXLEncoder_init 1 1 1 [2, 2, 2, 2, 2] default_c_mults
        example_conv (\<lambda>i. example_block) example_conv = Inr E"
    by (simp add: SoundStreamXLEncoder_init_def default_c_mults_def)
  from total_stride_init [OF E] have ts: "total_stride E = 32"
    by (simp add: default_c_mults_def)
  have x: "nchan ?x = 1" "0 < ntime ?x" "nbatch ?x = 1" "ntime ?x = 32"
    by (simp_all add: constant_signal_def)
  have dv: "total_stride E dvd ntime ?x" unfolding ts constant_signal_def by simp
  have ch: "(0::nat) < 1" "\<forall>c\<in>set default_c_mults. 0 < c"
    by (simp_all add: default_c_mults_def)
  from decode_encode_shape [OF E x(1) x(2) dv ch(1) ch(1) ch(1) ch(1) ch(2),
      of example_conv "\<lambda>i. example_dblock" example_conv]
  have "result_shape (decode_encode E
          (SoundStreamXLDecoder_init 1 1 1 example_conv (\<lambda>i. example_dblock) example_conv) ?x)
        = Inr (1, 1, 640)"
    using ts x by (auto simp: result_shape_def decode_encode_def)
  with E show "(case SoundStreamXLEncoder_init 1 1 1 [2, 2, 2, 2, 2] default_c_mults
        example_conv (\<lambda>i. example_block) example_conv of
      Inl e \<Rightarrow> Inl e
    | Inr E \<Rightarrow>
        result_shape (decode_encode E
          (SoundStreamXLDecoder_init 1 1 1 example_conv (\<lambda>i. example_dblock) example_conv)
          (constant_signal 1 1 32 0))) = Inr (1, 1, 640)"
    by simp
  from E ts show "map_sum id total_stride
     (SoundStreamXLEncoder_init 1 1 1 [2, 2, 2, 2, 2] default_c_mults
        example_conv (\<lambda>i. example_block) example_conv) = Inr 32"
    by simp
next
  from SoundStreamXLEncoder_init_default obtain E
    where E: "SoundStreamXLEncoder_init 1 1 1 default_strides default_c_mults
        example_conv (\<lambda>i. example_block) example_conv = Inr E"
    by blast
  have "CausalConv1d_forward (Conv1d_init 1 (1 * 1) 7 1 1 example_conv) (constant_signal 1 1 0 0)
        = Inl KernelTooLarge"
    by (rule CausalConv1d_forward_Inl)
      (simp add: Conv1d_init_def conv1d_shape_def constant_signal_def causal_padding_def)
  from SoundStreamXLEncoder_first_fails [OF E this] E
  show "(case SoundStreamXLEncoder_init 1 1 1 default_strides default_c_mults
        example_conv (\<lambda>i. example_block) example_conv of
      Inl e \<Rightarrow> Inl e
    | Inr E \<Rightarrow> result_shape (SoundStreamXLEncoder_forward E (constant_signal 1 1 0 0)))
     = Inl KernelTooLarge"
    by (simp add: result_shape_def)
next
  from SoundStreamXLEncoder_init_default obtain E
    where E: "SoundStreamXLEncoder_init 0 1 1 default_strides default_c_mults
        example_conv (\<lambda>i. example_block) example_conv = Inr E"
    by blast
  have "CausalConv1d_forward (Conv1d_init 1 (1 * 0) 7 1 1 example_conv) (constant_signal 1 1 640 0)
        = Inl EmptyWeight"
    by (rule CausalConv1d_forward_Inl)
      (simp add: Conv1d_init_def conv1d_shape_def constant_signal_def causal_padding_def)
  from SoundStreamXLEncoder_first_fails [OF E this] E
  show "(case SoundStreamXLEncoder_init 0 1 1 default_strides default_c_mults
        example_conv (\<lambda>i. example_block) example_conv of
      Inl e \<Rightarrow> Inl e
    | Inr E \<Rightarrow> result_shape (SoundStreamXLEncoder_forward E (constant_signal 1 1 640 0)))
     = Inl EmptyWeight"
    by (simp add: result_shape_def)
qed

text \<open>
  C3. Causality. If two inputs of an encoder agree up to time \<open>t\<close>, its outputs agree
  at every frame \<open>f\<close> with \<open>f * R \<le> t\<close>, where \<open>R\<close> is the total stride: frame \<open>f\<close>
  depends on no sample after \<open>f * R\<close>. For a single \<open>CausalConv1d\<close>, the output at
  time \<open>u\<close> depends only on the input up to time \<open>u * stride\<close>.
\<close>

theorem SoundStreamXLEncoder_causality:
  "(SoundStreamXLEncoder_init n ld nio strides c_mults p0 ps p1 = Inr E \<and>
    agree_upto t x y \<and> f * total_stride E \<le> t \<and>
    SoundStreamXLEncoder_forward E x = Inr x' \<and> SoundStreamXLEncoder_forward E y = Inr y'
      \<longrightarrow> agree_upto f x' y')
   \<and> (agree_upto (u * stride m) v w \<and>
      CausalConv1d_forward m v = Inr v' \<and> CausalConv1d_forward m w = Inr w'
      \<longrightarrow> agree_upto u v' w')"
proof (intro conjI impI)
  assume a: "SoundStreamXLEncoder_init n ld nio strides c_mults p0 ps p1 = Inr E \<and>
    agree_upto t x y \<and> f * total_stride E \<le> t \<and>
    SoundStreamXLEncoder_forward E x = Inr x' \<and> SoundStreamXLEncoder_forward E y = Inr y'"
  then have "agree_upto (f * total_stride E) x y" by (auto intro: agree_upto_mono)
  with a causal_SoundStreamXLEncoder show "agree_upto f x' y'"
    by (blast dest: causal_layerD)
next
  assume "agree_upto (u * stride m) v w \<and>
      CausalConv1d_forward m v = Inr v' \<and> CausalConv1d_forward m w = Inr w'"
  then show "agree_upto u v' w'" by (blast intro: CausalConv1d_forward_causal)
qed

theorem SoundStreamXLEncoder_causality_witness:
  "\<exists>E x' y' v' w'.
     SoundStreamXLEncoder_init 1 1 1 default_strides default_c_mults
        example_conv (\<lambda>i. example_block) example_conv = Inr E \<and>
     agree_upto 700 (constant_signal 1 1 1280 0) (perturb_after 700 (constant_signal 1 1 1280 0)) \<and>
     1 * total_stride E \<le> 700 \<and>
     SoundStreamXLEncoder_forward E (constant_signal 1 1 1280 0) = Inr x' \<and>
     SoundStreamXLEncoder_forward E (perturb_after 700 (constant_signal 1 1 1280 0)) = Inr y' \<and>
     agree_upto 1 x' y' \<and>
     agree_upto (1 * stride (Conv1d_init 1 1 4 2 1 example_conv))
       (constant_signal 1 1 6 0) (perturb_after 2 (constant_signal 1 1 6 0)) \<and>
     CausalConv1d_forward (Conv1d_init 1 1 4 2 1 example_conv) (constant_signal 1 1 6 0) = Inr v' \<and>
     CausalConv1d_forward (Conv1d_init 1 1 4 2 1 example_conv)
       (perturb_after 2 (constant_signal 1 1 6 0)) = Inr w' \<and>
     agree_upto 1 v' w'"
proof -
  let ?x = "constant_signal 1 1 1280 0" and ?m = "Conv1d_init 1 1 4 2 1 example_conv"
  let ?v = "constant_signal 1 1 6 0"
  from SoundStreamXLEncoder_init_default obtain E
    where E: "SoundStreamXLEncoder_init 1 1 1 default_strides default_c_mults
        example_conv (\<lambda>i. example_block) example_conv = Inr E"
    by blast
  from total_stride_init [OF E] have ts: "total_stride E = 640"
    by (simp add: default_strides_def default_c_mults_def)
  have pos: "\<forall>s\<in>set (take (length default_c_mults) default_strides). 0 < s"
    by (simp add: default_strides_def default_c_mults_def)
  have ch: "(0::nat) < 1" "\<forall>c\<in>set default_c_mults. 0 < c"
    by (simp_all add: default_c_mults_def)
  note ms = maps_shape_SoundStreamXLEncoder [OF E pos ch(1) ch(1) ch(2)]
  from maps_shapeD [OF ms, of ?x] obtain x' where x': "SoundStreamXLEncoder_forward E ?x = Inr x'"
    by (auto simp: constant_signal_def)
  from maps_shapeD [OF ms, of "perturb_after 700 ?x"]
  obtain y' where y': "SoundStreamXLEncoder_forward E (perturb_after 700 ?x) = Inr y'"
    by (auto simp: constant_signal_def perturb_after_def)
  have a: "agree_upto 700 ?x (perturb_after 700 ?x)" by (rule agree_upto_perturb_after)
  have le: "1 * total_stride E \<le> 700" by (simp add: ts)
  have m: "stride ?m = 2" "in_channels ?m = 1" "kernel_size ?m = 4" "dilation ?m = 1"
    "padding ?m = 0"
    by (simp_all add: Conv1d_init_def)
  from CausalConv1d_forward_ok [of ?v ?m] obtain v' where v': "CausalConv1d_forward ?m ?v = Inr v'"
    by (auto simp: Conv1d_init_def constant_signal_def)
  from CausalConv1d_forward_ok [of "perturb_after 2 ?v" ?m]
  obtain w' where w': "CausalConv1d_forward ?m (perturb_after 2 ?v) = Inr w'"
    by (auto simp: Conv1d_init_def constant_signal_def perturb_after_def)
  have b: "agree_upto (1 * stride ?m) ?v (perturb_after 2 ?v)"
    using agree_upto_perturb_after [of 2 ?v] by (simp add: Conv1d_init_def)
  note inst = SoundStreamXLEncoder_causality [of 1 1 1 default_strides default_c_mults
      example_conv "\<lambda>i. example_block" example_conv E 700 ?x "perturb_after 700 ?x" 1 x' y'
      1 ?m ?v "perturb_after 2 ?v" v' w']
  from inst E a le x' y' have c1: "agree_upto 1 x' y'" by blast
  from inst b v' w' have c2: "agree_upto 1 v' w'" by blast
  from E a le x' y' c1 b v' w' c2 show ?thesis by blast
qed

section \<open>The causal transposed convolution and the residual unit\<close>

lemma CausalConvTranspose1d_forward_trims:
  assumes "padding_mode m = ''zeros''" "padding m = 0"
    and "nchan x = in_channels m" "0 < stride m" "0 < kernel_size m" "0 < dilation m"
    and "output_padding m < max (stride m) (dilation m)" "0 < ntime x"
    and "0 < transpose_causal_padding m" "0 < in_channels m" "0 < out_channels m"
  shows "\<exists>y z. F_conv_transpose1d m x = Inr y \<and> CausalConvTranspose1d_forward m x = Inr z \<and>
     nbatch z = nbatch y \<and> nchan z = nchan y \<and> val z = val y \<and>
     int (ntime z) = int (ntime y) - transpose_causal_padding m \<and>
     ntime z = ntime x * stride m"
proof -
  from F_conv_transpose1d_ok [of x m] assms
  obtain y where y: "F_conv_transpose1d m x = Inr y"
    "ntime y = (ntime x - 1) * stride m + dilation m * (kernel_size m - 1)
                 + output_padding m + 1"
    by auto
  from CausalConvTranspose1d_forward_len [OF assms(1) y(1)] assms(9)
  obtain z where z: "CausalConvTranspose1d_forward m x = Inr z" "nbatch z = nbatch y"
    "nchan z = nchan y" "val z = val y"
    "ntime z = nat (int (ntime y) - transpose_causal_padding m)"
    by auto
  from assms(8) obtain r where r: "ntime x = Suc r" by (cases "ntime x") auto
  from assms(5) obtain k where k: "kernel_size m = Suc k" by (cases "kernel_size m") auto
  have eq: "int (ntime y) - transpose_causal_padding m = int (ntime x * stride m)"
    by (simp add: y(2) transpose_causal_padding_def r k algebra_simps)
  have nz: "ntime z = ntime x * stride m" by (simp only: z(5) eq nat_int)
  have iz: "int (ntime z) = int (ntime y) - transpose_causal_padding m" by (simp only: nz eq)
  from y(1) z(1) z(2) z(3) z(4) iz nz show ?thesis by blast
qed

lemma ResidualUnit_forward_unfold:
  "ResidualUnit_forward ru x =
     (case CausalConv1d_forward (ru_causal ru) x of
        Inl e \<Rightarrow> Inl e
      | Inr h \<Rightarrow>
          (case Conv1d_forward (ru_pointwise ru) (h\<lparr>val := \<lambda>b c t. elu (val h b c t)\<rparr>) of
             Inl e \<Rightarrow> Inl e
           | Inr g \<Rightarrow> tensor_add x g))"
  by (simp add: ResidualUnit_forward_def ResidualUnit_layers_def ELU_def split: sum.splits)

lemma ResidualUnit_forward_mismatch:
  assumes ne: "cin \<noteq> cout"
  shows "(\<exists>e. ResidualUnit_forward (ResidualUnit_init cin cout d p) x = Inl e) \<and>
     (0 < d \<and> 0 < ntime x \<and> 0 < cout \<longrightarrow>
        ResidualUnit_forward (ResidualUnit_init cin cout d p) x = Inl ChannelMismatch)"
proof -
  let ?ru = "ResidualUnit_init cin cout d p"
  let ?c = "ru_causal ?ru" and ?pw = "ru_pointwise ?ru"
  have c: "in_channels ?c = cin" "out_channels ?c = cout" "kernel_size ?c = 7" "stride ?c = 1"
    "padding ?c = 0" "dilation ?c = d"
    and pw: "in_channels ?pw = cin" "out_channels ?pw = cout" "kernel_size ?pw = 1"
    "stride ?pw = 1" "padding ?pw = 0" "dilation ?pw = 1"
    by (simp_all add: ResidualUnit_init_def Conv1d_init_def)
  note fwd = ResidualUnit_forward_unfold [of ?ru x]
  show ?thesis
  proof (cases "0 < d \<and> 0 < ntime x \<and> nchan x = cin \<and> 0 < cout")
    case True
    from CausalConv1d_forward_ok [of x ?c] True c
    obtain h where h: "CausalConv1d_forward ?c x = Inr h" "nchan h = cout" by auto
    have "conv1d_shape (in_channels ?pw) (out_channels ?pw) (kernel_size ?pw) (stride ?pw)
             (padding ?pw) (dilation ?pw) (shape_of (h\<lparr>val := \<lambda>b c t. elu (val h b c t)\<rparr>))
          = Inl ChannelMismatch"
      using ne h(2) True by (simp add: pw conv1d_shape_def shape_of_def)
    from Conv1d_forward_Inl [OF this]
    have "ResidualUnit_forward ?ru x = Inl ChannelMismatch"
      by (simp add: fwd h(1))
    then show ?thesis by simp
  next
    case False
    have "\<exists>e. conv1d_shape (in_channels ?c) (out_channels ?c) (kernel_size ?c) (stride ?c)
             (padding ?c) (dilation ?c) (nbatch x, nchan x, causal_padding ?c + ntime x) = Inl e
             \<and> (0 < d \<and> 0 < ntime x \<and> 0 < cout \<longrightarrow> e = ChannelMismatch)"
      using False by (auto simp: c conv1d_shape_def causal_padding_def)
    then obtain e where e: "CausalConv1d_forward ?c x = Inl e"
      "0 < d \<and> 0 < ntime x \<and> 0 < cout \<longrightarrow> e = ChannelMismatch"
      by (blast dest: CausalConv1d_forward_Inl)
    then show ?thesis by (auto simp: fwd)
  qed
qed

lemma CausalConv1d_forward_val:
  assumes "CausalConv1d_forward m x = Inr h" "padding m = 0"
  shows "val h b co u = bias m co +
     (\<Sum>ci<in_channels m. \<Sum>i<kernel_size m. weight m co ci i *
        (if causal_padding m \<le> u * stride m + i * dilation m \<and>
            u * stride m + i * dilation m < causal_padding m + ntime x
         then val x b ci (u * stride m + i * dilation m - causal_padding m) else 0))"
proof -
  from assms(1) have "Conv1d_forward m (F_pad x (causal_padding m) 0) = Inr h"
    by (simp add: CausalConv1d_forward_def)
  moreover have "val (F_pad (F_pad x l 0) 0 0) b' c' j =
      (if l \<le> j \<and> j < l + ntime x then val x b' c' (j - l) else 0)" for l b' c' j
    by (auto simp: F_pad_def)
  ultimately show ?thesis
    using Conv1d_forward_val [of m "F_pad x (causal_padding m) 0" h b co u]
    by (simp add: assms(2))
qed

lemma ResidualUnit_forward_same:
  assumes "0 < d" "nchan x = c" "0 < ntime x" "0 < c"
  shows "\<exists>y. ResidualUnit_forward (ResidualUnit_init c c d (p1, p2)) x = Inr y \<and>
      shape_of y = shape_of x \<and>
      (\<forall>b<nbatch x. \<forall>ch<c. \<forall>t<ntime x.
         val y b ch t = val x b ch t +
           (snd p2 ch + (\<Sum>ci<c. fst p2 ch ci 0 *
              elu (snd p1 ci + (\<Sum>cj<c. \<Sum>i<7. fst p1 ci cj i *
                 (if 6 * d \<le> t + i * d then val x b cj (t + i * d - 6 * d) else 0))))))"
proof -
  let ?ru = "ResidualUnit_init c c d (p1, p2)"
  let ?c = "ru_causal ?ru" and ?pw = "ru_pointwise ?ru"
  have c: "in_channels ?c = c" "out_channels ?c = c" "kernel_size ?c = 7" "stride ?c = 1"
    "padding ?c = 0" "dilation ?c = d" "weight ?c = fst p1" "bias ?c = snd p1"
    and pw: "in_channels ?pw = c" "out_channels ?pw = c" "kernel_size ?pw = 1"
    "stride ?pw = 1" "padding ?pw = 0" "dilation ?pw = 1" "weight ?pw = fst p2"
    "bias ?pw = snd p2"
    by (simp_all add: ResidualUnit_init_def Conv1d_init_def)
  have cp: "causal_padding ?c = 6 * d" by (simp add: causal_padding_def c)
  from CausalConv1d_forward_ok [of x ?c] assms c
  obtain h where h: "CausalConv1d_forward ?c x = Inr h" "nbatch h = nbatch x" "nchan h = c"
    "ntime h = ntime x" by auto
  let ?a = "h\<lparr>val := \<lambda>b ch t. elu (val h b ch t)\<rparr>"
  from Conv1d_forward_ok [of ?a ?pw] assms h pw
  obtain g where g: "Conv1d_forward ?pw ?a = Inr g" "nbatch g = nbatch x" "nchan g = c"
    "ntime g = ntime x" by auto
  from g assms have "shape_of x = shape_of g" by (simp add: shape_of_def)
  from tensor_add_same_shape [OF this] obtain y where y: "tensor_add x g = Inr y"
    "shape_of y = shape_of x"
    "\<forall>b<nbatch x. \<forall>ch<nchan x. \<forall>t<ntime x. val y b ch t = val x b ch t + val g b ch t"
    by blast
  have fwd: "ResidualUnit_forward ?ru x = Inr y"
    by (simp add: ResidualUnit_forward_unfold h(1) g(1) y(1))
  have hv: "val h b ci t = snd p1 ci + (\<Sum>cj<c. \<Sum>i<7. fst p1 ci cj i *
                 (if 6 * d \<le> t + i * d then val x b cj (t + i * d - 6 * d) else 0))"
    if "t < ntime x" for b ci t
  proof -
    have "t + i * d < 6 * d + ntime x" if "i < 7" for i
    proof -
      from that have le: "i * d \<le> 6 * d" by (intro mult_le_mono1) simp
      show ?thesis by (rule add_less_le_mono [OF \<open>t < ntime x\<close> le, unfolded add.commute [of "ntime x"]])
    qed
    note bound = this
    have raw: "val h b ci t = snd p1 ci + (\<Sum>cj<c. \<Sum>i<7. fst p1 ci cj i *
                 (if 6 * d \<le> t + i * d \<and> t + i * d < 6 * d + ntime x
                  then val x b cj (t + i * d - 6 * d) else 0))"
      using CausalConv1d_forward_val [OF h(1) c(5), of b ci t]
      by (simp add: c cp cong: if_cong)
    have "(\<Sum>i<7. fst p1 ci cj i *
                 (if 6 * d \<le> t + i * d \<and> t + i * d < 6 * d + ntime x
                  then val x b cj (t + i * d - 6 * d) else 0))
        = (\<Sum>i<7. fst p1 ci cj i *
                 (if 6 * d \<le> t + i * d then val x b cj (t + i * d - 6 * d) else 0))" for cj
      by (rule sum.cong) (use bound in auto)
    then show ?thesis unfolding raw by simp
  qed
  have gv: "val g b ch t = snd p2 ch + (\<Sum>ci<c. fst p2 ch ci 0 * elu (val h b ci t))"
    if "t < ntime x" for b ch t
  proof -
    have "val (F_pad ?a 0 0) b ci t = elu (val h b ci t)" for ci
      using that by (simp add: F_pad_def h(4))
    then show ?thesis
      by (simp add: Conv1d_forward_val [OF g(1)] pw)
  qed
  have "val y b ch t = val x b ch t +
           (snd p2 ch + (\<Sum>ci<c. fst p2 ch ci 0 *
              elu (snd p1 ci + (\<Sum>cj<c. \<Sum>i<7. fst p1 ci cj i *
                 (if 6 * d \<le> t + i * d then val x b cj (t + i * d - 6 * d) else 0)))))"
    if "b < nbatch x" "ch < c" "t < ntime x" for b ch t
    using y(3) that assms(2) by (simp add: gv hv)
  with fwd y(2) show ?thesis by blast
qed

text \<open>
  C8. The trimming slice \<open>[..., :-causal_padding]\<close> evaluated at a configuration with
  \<open>causal_padding = 0\<close>: kernel size 2, stride 2, dilation 1, no padding. The
  transposed convolution of three samples has six samples; the slice \<open>[..., :-0]\<close>
  keeps none of them.
\<close>

theorem CausalConvTranspose1d_zero_causal_padding:
  "map_sum id transpose_causal_padding
     (CausalConvTranspose1d_init 1 1 2 2 0 0 1 ''zeros'' example_conv) = Inr 0 \<and>
   (case CausalConvTranspose1d_init 1 1 2 2 0 0 1 ''zeros'' example_conv of
      Inl e \<Rightarrow> Inl e
    | Inr m \<Rightarrow> result_shape (F_conv_transpose1d m (constant_signal 1 1 3 1))) = Inr (1, 1, 6) \<and>
   (case CausalConvTranspose1d_init 1 1 2 2 0 0 1 ''zeros'' example_conv of
      Inl e \<Rightarrow> Inl e
    | Inr m \<Rightarrow> result_shape (CausalConvTranspose1d_forward m (constant_signal 1 1 3 1)))
     = Inr (1, 1, 0)"
  by (simp add: CausalConvTranspose1d_init_def transpose_causal_padding_def
      CausalConvTranspose1d_forward_def F_conv_transpose1d_def conv_transpose1d_shape_def
      shape_of_def constant_signal_def result_shape_def slice_until_neg_def Let_def)

text \<open>
  C9. A padding mode other than zeros makes the construction of a
  \<open>CausalConvTranspose1d\<close> fail with \<open>ValueError\<close>, and the forward pass of a
  module whose padding mode is not zeros fails with \<open>ValueError\<close> on every input.
\<close>

theorem CausalConvTranspose1d_padding_mode:
  "(mode \<noteq> ''zeros'' \<longrightarrow>
      CausalConvTranspose1d_init cin cout k s p opad d mode prm = Inl ValueError) \<and>
   (padding_mode m \<noteq> ''zeros'' \<longrightarrow> CausalConvTranspose1d_forward m x = Inl ValueError)"
  by (simp add: CausalConvTranspose1d_init_def CausalConvTranspose1d_forward_def)

theorem CausalConvTranspose1d_padding_mode_witness:
  "''reflect'' \<noteq> ''zeros'' \<and>
   CausalConvTranspose1d_init 1 1 4 2 0 0 1 ''reflect'' example_conv = Inl ValueError \<and>
   padding_mode \<lparr> in_channels = 1, out_channels = 1, kernel_size = 4, stride = 2,
                  padding = 0, dilation = 1, weight = fst example_conv,
                  bias = snd example_conv, output_padding = 0,
                  padding_mode = ''reflect'' \<rparr> \<noteq> ''zeros'' \<and>
   CausalConvTranspose1d_forward
     \<lparr> in_channels = 1, out_channels = 1, kernel_size = 4, stride = 2,
       padding = 0, dilation = 1, weight = fst example_conv,
       bias = snd example_conv, output_padding = 0,
       padding_mode = ''reflect'' \<rparr> (constant_signal 1 1 3 1) = Inl ValueError"
  using CausalConvTranspose1d_padding_mode [of "''reflect''" 1 1 4 2 0 0 1 example_conv
      "\<lparr> in_channels = 1, out_channels = 1, kernel_size = 4, stride = 2,
       padding = 0, dilation = 1, weight = fst example_conv,
       bias = snd example_conv, output_padding = 0,
       padding_mode = ''reflect'' \<rparr>" "constant_signal 1 1 3 1"]
  by simp

text \<open>
  C10. A \<open>ResidualUnit\<close> built with equal, positive channel counts \<open>c\<close> and a
  positive dilation \<open>d\<close> maps every input with \<open>c\<close> channels and at least one sample
  to an output of the same shape, whose value at time \<open>t\<close> is the input plus the
  pointwise convolution of the \<open>ELU\<close> (\<open>v\<close> for \<open>v > 0\<close>, \<open>exp v - 1\<close> otherwise) of
  the causal convolution with 7 taps at the times \<open>t - (6 - i) d\<close>, zero before the
  start of the input. Built with different channel counts it fails on every input;
  the failure is the channel mismatch when the input has a sample and dilation and
  output channel count are positive. With equal channel counts it fails on an input
  without samples, with the dilation 0 and with 0 channels.
\<close>

theorem ResidualUnit_channels:
  "(0 < c \<and> 0 < d \<and> nchan x = c \<and> 0 < ntime x \<longrightarrow>
      (\<exists>y. ResidualUnit_forward (ResidualUnit_init c c d (p1, p2)) x = Inr y \<and>
         shape_of y = shape_of x \<and>
         (\<forall>b<nbatch x. \<forall>ch<c. \<forall>t<ntime x.
            val y b ch t = val x b ch t +
              (snd p2 ch + (\<Sum>ci<c. fst p2 ch ci 0 *
                 (\<lambda>v. if 0 < v then v else exp v - 1)
                   (snd p1 ci + (\<Sum>cj<c. \<Sum>i<7. fst p1 ci cj i *
                      (if 6 * d \<le> t + i * d then val x b cj (t + i * d - 6 * d) else 0))))))))
   \<and> (cin \<noteq> cout \<longrightarrow>
        (\<exists>e. ResidualUnit_forward (ResidualUnit_init cin cout d' p') x' = Inl e) \<and>
        (0 < d' \<and> 0 < ntime x' \<and> 0 < cout \<longrightarrow>
           ResidualUnit_forward (ResidualUnit_init cin cout d' p') x' = Inl ChannelMismatch))"
  using ResidualUnit_forward_same [of d x c p1 p2]
    ResidualUnit_forward_mismatch [of cin cout d' p' x']
  unfolding elu_def by blast

theorem ResidualUnit_channels_witness:
  "(\<exists>y. ResidualUnit_forward
           (ResidualUnit_init 1 1 2 (((\<lambda>co ci i. - 1), (\<lambda>co. 0)), example_conv))
           (constant_signal 1 1 10 1) = Inr y \<and>
        shape_of y = (1, 1, 10) \<and> val y 0 0 9 = exp (- 5)) \<and>
   ResidualUnit_forward (ResidualUnit_init 2 4 3 (example_conv, example_conv))
     (constant_signal 1 2 5 1) = Inl ChannelMismatch"
proof -
  let ?x = "constant_signal 1 1 10 1" and ?p1 = "((\<lambda>co ci i. - 1), (\<lambda>co. 0)) :: conv_params"
  let ?x' = "constant_signal 1 2 5 1"
  have x: "nchan ?x = 1" "0 < ntime ?x" "shape_of ?x = (1, 1, 10)" "nbatch ?x = 1" "ntime ?x = 10"
    and x': "0 < ntime ?x'"
    by (simp_all add: constant_signal_def shape_of_def)
  note inst = ResidualUnit_channels [of 1 2 ?x ?p1 example_conv 2 4 3
      "(example_conv, example_conv)" ?x']
  from inst x obtain y
    where y: "ResidualUnit_forward (ResidualUnit_init 1 1 2 (?p1, example_conv)) ?x = Inr y"
      "shape_of y = (1, 1, 10)"
      "\<forall>b<1. \<forall>ch<1. \<forall>t<10.
            val y b ch t = val ?x b ch t +
              (snd example_conv ch + (\<Sum>ci<1. fst example_conv ch ci 0 *
                 (\<lambda>v. if 0 < v then v else exp v - 1)
                   (snd ?p1 ci + (\<Sum>cj<1. \<Sum>i<7. fst ?p1 ci cj i *
                      (if 6 * 2 \<le> t + i * 2 then val ?x b cj (t + i * 2 - 6 * 2) else 0)))))"
    by auto
  have s7: "(\<Sum>i<7. f i) = f 0 + f 1 + f 2 + f 3 + f 4 + f 5 + f 6" for f :: "nat \<Rightarrow> real"
    by (simp add: eval_nat_numeral lessThan_Suc)
  from y(3) have "val y 0 0 9 = exp (- 5)"
    by (simp add: example_conv_def constant_signal_def s7)
  moreover from inst x'
  have "ResidualUnit_forward (ResidualUnit_init 2 4 3 (example_conv, example_conv)) ?x'
      = Inl ChannelMismatch"
    by simp
  ultimately show ?thesis using y(1) y(2) by blast
qed

theorem ResidualUnit_degenerate_inputs:
  "result_shape (ResidualUnit_forward (ResidualUnit_init 2 2 1 (example_conv, example_conv))
     (constant_signal 1 2 0 0)) = Inl KernelTooLarge \<and>
   result_shape (ResidualUnit_forward (ResidualUnit_init 2 2 0 (example_conv, example_conv))
     (constant_signal 1 2 5 0)) = Inl DegenerateKernel \<and>
   result_shape (ResidualUnit_forward (ResidualUnit_init 0 0 1 (example_conv, example_conv))
     (constant_signal 1 0 5 0)) = Inl EmptyWeight"
proof -
  have "CausalConv1d_forward (ru_causal (ResidualUnit_init 2 2 1 (example_conv, example_conv)))
          (constant_signal 1 2 0 0) = Inl KernelTooLarge"
    by (rule CausalConv1d_forward_Inl)
      (simp add: ResidualUnit_init_def Conv1d_init_def conv1d_shape_def constant_signal_def
        causal_padding_def)
  moreover
  have "CausalConv1d_forward (ru_causal (ResidualUnit_init 2 2 0 (example_conv, example_conv)))
          (constant_signal 1 2 5 0) = Inl DegenerateKernel"
    by (rule CausalConv1d_forward_Inl)
      (simp add: ResidualUnit_init_def Conv1d_init_def conv1d_shape_def constant_signal_def
        causal_padding_def)
  moreover
  have "CausalConv1d_forward (ru_causal (ResidualUnit_init 0 0 1 (example_conv, example_conv)))
          (constant_signal 1 0 5 0) = Inl EmptyWeight"
    by (rule CausalConv1d_forward_Inl)
      (simp add: ResidualUnit_init_def Conv1d_init_def conv1d_shape_def constant_signal_def
        causal_padding_def)
  ultimately show ?thesis
    by (simp add: ResidualUnit_forward_unfold result_shape_def)
qed

section \<open>The feature-map lengths of WaveDiscriminatorBlock\<close>

lemma ceil_div_int:
  assumes "0 < L" "0 < k"
  shows "int ((L - 1) div k + 1) = (int L + (int k - 1)) div int k"
proof -
  have "(int L + (int k - 1)) div int k = ((int L - 1) + int k) div int k"
    by (simp add: algebra_simps)
  also have "\<dots> = (int L - 1) div int k + 1" using assms(2) by simp
  also have "int L - 1 = int (L - 1)" using assms(1) by simp
  finally show ?thesis by (simp add: zdiv_int)
qed

lemma WaveDiscriminatorBlock_forward_eq:
  "WaveDiscriminatorBlock_forward (B, C, L) =
     (if L \<le> 7 then Inl PaddingTooLarge
      else if C \<noteq> 1 then Inl ChannelMismatch
      else Inr [ (B, 16, L), (B, 64, (L - 1) div 4 + 1), (B, 256, (L - 1) div 16 + 1),
                 (B, 1024, (L - 1) div 64 + 1), (B, 1024, (L - 1) div 256 + 1),
                 (B, 1024, (L - 1) div 256 + 1), (B, 1, (L - 1) div 256 + 1) ])"
proof -
  have d: "n div 4 div 4 = n div 16" "n div 16 div 4 = n div 64"
    "n div 64 div 4 = n div 256" "n div 16 div 16 = n div 256" for n :: nat
    by (simp_all add: div_mult2_eq [symmetric])
  show ?thesis
    by (simp add: WaveDiscriminatorBlock_forward_def WaveDiscriminatorBlock_layers_def
        ReflectionPad1d_shape_def WNConv1d_shape_def LeakyReLU_shape_def conv1d_shape_def d)
qed

lemma WaveDiscriminatorBlock_features_lengths_in_range:
  assumes "\<forall>l\<in>set ls. - (2 ^ 63) \<le> l \<and> l \<le> 2 ^ 63 - 256"
  shows "WaveDiscriminatorBlock_features_lengths ls =
     [ ls, map (\<lambda>L. (L + 3) div 4) ls, map (\<lambda>L. (L + 15) div 16) ls,
       map (\<lambda>L. (L + 63) div 64) ls, map (\<lambda>L. (L + 255) div 256) ls,
       map (\<lambda>L. (L + 255) div 256) ls, map (\<lambda>L. (L + 255) div 256) ls ]"
proof -
  have a: "tensor_add_scalar ls n = map (\<lambda>l. l + n) ls" if "0 \<le> n" "n \<le> 255" for n
  proof (rule tensor_add_scalar_in_range, rule ballI)
    fix l assume "l \<in> set ls"
    with assms have "- (2 ^ 63) \<le> l" "l \<le> 2 ^ 63 - 256" by auto
    with that show "- (2 ^ 63) \<le> l + n \<and> l + n < 2 ^ 63" by simp
  qed
  from a [of 3] a [of 15] a [of 63] a [of 255] show ?thesis
    by (simp add: WaveDiscriminatorBlock_features_lengths_def torch_div_floor_def comp_def)
qed

lemma WaveDiscriminatorBlock_features_lengths_single:
  assumes "0 < L" "int L \<le> 2 ^ 63 - 256"
  shows "WaveDiscriminatorBlock_features_lengths [int L] =
     [ [int L], [int ((L - 1) div 4 + 1)], [int ((L - 1) div 16 + 1)],
       [int ((L - 1) div 64 + 1)], [int ((L - 1) div 256 + 1)],
       [int ((L - 1) div 256 + 1)], [int ((L - 1) div 256 + 1)] ]"
proof -
  have "\<forall>l\<in>set [int L]. - (2 ^ 63) \<le> l \<and> l \<le> 2 ^ 63 - 256"
    using assms(2) by simp
  from WaveDiscriminatorBlock_features_lengths_in_range [OF this]
    ceil_div_int [OF assms(1), of 4] ceil_div_int [OF assms(1), of 16]
    ceil_div_int [OF assms(1), of 64] ceil_div_int [OF assms(1), of 256]
  show ?thesis by simp
qed

lemma WaveDiscriminatorBlock_forward_lengths:
  assumes "WaveDiscriminatorBlock_forward (B, C, L) = Inr fs" "int L \<le> 2 ^ 63 - 256"
  shows "time_lengths fs = WaveDiscriminatorBlock_features_lengths [int L]"
proof -
  from assms(1) have L: "7 < L" and C: "C = 1"
    by (auto simp: WaveDiscriminatorBlock_forward_eq split: if_splits)
  from assms(1) L C have "fs = [ (B, 16, L), (B, 64, (L - 1) div 4 + 1), (B, 256, (L - 1) div 16 + 1),
                 (B, 1024, (L - 1) div 64 + 1), (B, 1024, (L - 1) div 256 + 1),
                 (B, 1024, (L - 1) div 256 + 1), (B, 1, (L - 1) div 256 + 1) ]"
    by (simp add: WaveDiscriminatorBlock_forward_eq)
  moreover from L have "0 < L" by simp
  ultimately show ?thesis
    by (simp only: WaveDiscriminatorBlock_features_lengths_single [OF _ assms(2)]
        time_lengths_def list.map prod.case)
qed

text \<open>
  C4. For a batch of 64-bit lengths of at most \<open>2^63 - 256\<close>, where \<open>lengths + 255\<close>
  does not wrap, \<open>features_lengths\<close> returns the seven sequences \<open>L\<close>,
  \<open>(L+3) div 4\<close>, \<open>(L+15) div 16\<close>, \<open>(L+63) div 64\<close> and three times
  \<open>(L+255) div 256\<close>, entry by entry over the batch. On an input with one channel and
  at least eight samples (the reflection padding of 7 needs more than seven)
  \<open>forward\<close> returns seven feature maps, and whenever \<open>forward\<close> returns, the time
  length of its i-th feature map is the i-th entry of \<open>features_lengths\<close> at the
  input's length. At the largest 64-bit length the additions wrap and the entries
  after the first are negative.
\<close>

theorem WaveDiscriminatorBlock_lengths:
  "((\<forall>l\<in>set ls. - (2 ^ 63) \<le> l \<and> l \<le> 2 ^ 63 - 256) \<longrightarrow>
      WaveDiscriminatorBlock_features_lengths ls =
        [ ls, map (\<lambda>L. (L + 3) div 4) ls, map (\<lambda>L. (L + 15) div 16) ls,
          map (\<lambda>L. (L + 63) div 64) ls, map (\<lambda>L. (L + 255) div 256) ls,
          map (\<lambda>L. (L + 255) div 256) ls, map (\<lambda>L. (L + 255) div 256) ls ])
   \<and> (8 \<le> T \<longrightarrow> (\<exists>fs. WaveDiscriminatorBlock_forward (B, 1, T) = Inr fs \<and> length fs = 7))
   \<and> (WaveDiscriminatorBlock_forward (B', C, T') = Inr fs' \<and> int T' \<le> 2 ^ 63 - 256 \<longrightarrow>
        time_lengths fs' = WaveDiscriminatorBlock_features_lengths [int T'])"
proof (intro conjI impI)
  assume "\<forall>l\<in>set ls. - (2 ^ 63) \<le> l \<and> l \<le> 2 ^ 63 - 256"
  then show "WaveDiscriminatorBlock_features_lengths ls =
        [ ls, map (\<lambda>L. (L + 3) div 4) ls, map (\<lambda>L. (L + 15) div 16) ls,
          map (\<lambda>L. (L + 63) div 64) ls, map (\<lambda>L. (L + 255) div 256) ls,
          map (\<lambda>L. (L + 255) div 256) ls, map (\<lambda>L. (L + 255) div 256) ls ]"
    by (rule WaveDiscriminatorBlock_features_lengths_in_range)
next
  assume "8 \<le> T"
  then show "\<exists>fs. WaveDiscriminatorBlock_forward (B, 1, T) = Inr fs \<and> length fs = 7"
    by (simp add: WaveDiscriminatorBlock_forward_eq)
next
  assume "WaveDiscriminatorBlock_forward (B', C, T') = Inr fs' \<and> int T' \<le> 2 ^ 63 - 256"
  then show "time_lengths fs' = WaveDiscriminatorBlock_features_lengths [int T']"
    by (blast intro: WaveDiscriminatorBlock_forward_lengths)
qed

theorem WaveDiscriminatorBlock_lengths_witness:
  "- (2 ^ 63) \<le> (7 :: int) \<and> (1000 :: int) \<le> 2 ^ 63 - 256 \<and>
   WaveDiscriminatorBlock_features_lengths [1000, 7] =
     [[1000, 7], [250, 2], [63, 1], [16, 1], [4, 1], [4, 1], [4, 1]] \<and>
   (8::nat) \<le> 1000 \<and>
   WaveDiscriminatorBlock_forward (2, 1, 1000) =
     Inr [(2, 16, 1000), (2, 64, 250), (2, 256, 63), (2, 1024, 16), (2, 1024, 4),
          (2, 1024, 4), (2, 1, 4)] \<and>
   int 1000 \<le> 2 ^ 63 - 256 \<and>
   time_lengths [(2, 16, 1000), (2, 64, 250), (2, 256, 63), (2, 1024, 16), (2, 1024, 4),
          (2, 1024, 4), (2, 1, 4)] = WaveDiscriminatorBlock_features_lengths [int 1000]"
proof -
  let ?fs = "[(2, 16, 1000), (2, 64, 250), (2, 256, 63), (2, 1024, 16), (2, 1024, 4),
          (2, 1024, 4), (2::nat, 1::nat, 4::nat)]"
  have r: "\<forall>l\<in>set [1000, 7 :: int]. - (2 ^ 63) \<le> l \<and> l \<le> 2 ^ 63 - 256" by simp
  have b: "int 1000 \<le> 2 ^ 63 - 256" by simp
  have f: "WaveDiscriminatorBlock_forward (2, 1, 1000) = Inr ?fs"
    by (simp add: WaveDiscriminatorBlock_forward_eq)
  note inst = WaveDiscriminatorBlock_lengths [of "[1000, 7]" 1000 2 2 1 1000 ?fs]
  from inst r have "WaveDiscriminatorBlock_features_lengths [1000, 7] =
        [ [1000, 7], map (\<lambda>L. (L + 3) div 4) [1000, 7], map (\<lambda>L. (L + 15) div 16) [1000, 7],
          map (\<lambda>L. (L + 63) div 64) [1000, 7], map (\<lambda>L. (L + 255) div 256) [1000, 7],
          map (\<lambda>L. (L + 255) div 256) [1000, 7], map (\<lambda>L. (L + 255) div 256) [1000, 7] ]"
    by blast
  then have a: "WaveDiscriminatorBlock_features_lengths [1000, 7] =
     [[1000, 7], [250, 2], [63, 1], [16, 1], [4, 1], [4, 1], [4, 1]]" by simp
  from inst f b
  have c: "time_lengths ?fs = WaveDiscriminatorBlock_features_lengths [int 1000]" by blast
  from r a f b c show ?thesis by simp
qed

theorem WaveDiscriminatorBlock_features_lengths_wraps:
  "WaveDiscriminatorBlock_features_lengths [2 ^ 63 - 1] =
     [ [9223372036854775807], [- 2305843009213693952], [- 576460752303423488],
       [- 144115188075855872], [- 36028797018963968], [- 36028797018963968],
       [- 36028797018963968] ]
   \<and> ((2 ^ 63 - 1) + 3) div 4 = (2305843009213693952 :: int)"
  by (simp add: WaveDiscriminatorBlock_features_lengths_def torch_div_floor_def
      tensor_add_scalar_def wrap64_def)

end
